theory Spec2Isabelle
  imports Complex_Main
begin

section \<open>JavaScript values, objects and the heap\<close>

text \<open>
  The values the functions of \<^verbatim>\<open>index.js\<close> receive: primitives and plain objects.
  A finite number is a rational (every finite double is one); \<open>NaN\<close> and the two
  infinities are numbers of their own (\<open>Infinity True\<close> is \<^verbatim>\<open>+Infinity\<close>,
  \<open>Infinity False\<close> is \<^verbatim>\<open>-Infinity\<close>). A plain object is a reference into a heap of
  property maps, so that two names for one object see each other's writes.
\<close>

type_synonym addr = nat

datatype jsval =
    Undefined
  | Null
  | Bool bool
  | Num rat
  | NaN
  | Infinity bool
  | Str string
  | Obj addr

type_synonym obj = "string \<rightharpoonup> jsval"

type_synonym heap = "obj list"

text \<open>Reading a property: an absent property reads as \<open>undefined\<close>.\<close>

definition get :: "obj \<Rightarrow> string \<Rightarrow> jsval" where
  "get ob k = (case ob k of None \<Rightarrow> Undefined | Some v \<Rightarrow> v)"

text \<open>
  The object a reference points to. JavaScript has no dangling reference; an address
  outside the heap and a primitive have no own properties.
\<close>

fun deref :: "heap \<Rightarrow> jsval \<Rightarrow> obj" where
  "deref h (Obj a) = (if a < length h then h ! a else Map.empty)"
| "deref h _ = Map.empty"

text \<open>An object literal allocates a new object: the heap grows by one cell.\<close>

definition alloc :: "heap \<Rightarrow> obj \<Rightarrow> heap \<times> addr" where
  "alloc h ob = (h @ [ob], length h)"

text \<open>The assignment \<^verbatim>\<open>o.k = v\<close> on the object at address \<open>a\<close>.\<close>

definition set_prop :: "heap \<Rightarrow> addr \<Rightarrow> string \<Rightarrow> jsval \<Rightarrow> heap" where
  "set_prop h a k v = (if a < length h then h[a := (h ! a)(k \<mapsto> v)] else h)"

text \<open>
  \<^verbatim>\<open>Object.assign(target, ...sources)\<close> on property maps: the own properties of a
  later source override those of an earlier one, a property whose value is
  \<open>undefined\<close> included.
\<close>

definition Object_assign :: "obj \<Rightarrow> obj list \<Rightarrow> obj" where
  "Object_assign target sources = foldl (++) target sources"

section \<open>The predicates of the \<^verbatim>\<open>is2\<close> package\<close>

text \<open>
  The package \<^verbatim>\<open>is2\<close> is a dependency of the repository and is not among its sources.
  The four predicates \<^verbatim>\<open>index.js\<close> calls are modelled from what the spec says of the
  values they accept.
\<close>

text \<open>
  Modelled from the spec: whether a finite number is an integer, which \<^verbatim>\<open>is.port\<close> and
  \<^verbatim>\<open>is.positiveInt\<close> of the missing package \<^verbatim>\<open>is2\<close> need ("an integer in [0, 65535]",
  "positive integer").
\<close>

definition is_int :: "rat \<Rightarrow> bool" where
  "is_int q = (of_int \<lfloor>q\<rfloor> = q)"

text \<open>
  Modelled from the spec: \<^verbatim>\<open>is.obj\<close> of the missing package \<^verbatim>\<open>is2\<close>. The first
  argument is "a structured options value" when it is a plain object, and positional
  otherwise.
\<close>

fun is_obj :: "jsval \<Rightarrow> bool" where
  "is_obj (Obj a) = True"
| "is_obj _ = False"

text \<open>
  Modelled from the spec: \<^verbatim>\<open>is.bool\<close> of the missing package \<^verbatim>\<open>is2\<close>
  ("validates \<open>options.desiredInUse\<close> is a boolean").
\<close>

fun is_bool :: "jsval \<Rightarrow> bool" where
  "is_bool (Bool b) = True"
| "is_bool _ = False"

text \<open>
  Modelled from the spec: \<^verbatim>\<open>is.positiveInt\<close> of the missing package \<^verbatim>\<open>is2\<close>
  ("\<open>retryIntervalMs\<close> (positive integer, default 250), \<open>timeoutMs\<close> (positive integer,
  default 2000)"; "defaults when absent or not a positive integer").
\<close>

fun is_positiveInt :: "jsval \<Rightarrow> bool" where
  "is_positiveInt (Num q) = (is_int q \<and> 0 < q)"
| "is_positiveInt _ = False"

text \<open>
  Modelled from the spec: \<^verbatim>\<open>is.port\<close> of the missing package \<^verbatim>\<open>is2\<close>
  ("\<open>request.port\<close> must be an integer in [0, 65535]"; an invalid port is one that "is
  missing, non-numeric, or outside [0,65535]"). The guard the program runs is the
  package's, and it is wider than these words: it lets through some numbers that are no
  valid port (a number that is not an integer, \<^verbatim>\<open>NaN\<close>, \<^verbatim>\<open>-Infinity\<close>). The
  statements therefore use \<open>is_port\<close> only as the hypothesis that a port is valid, where
  the two agree; what they say of a port that is refused is said of \<open>port_refused\<close>
  below, and of no other value.
\<close>

fun is_port :: "jsval \<Rightarrow> bool" where
  "is_port (Num q) = (is_int q \<and> 0 \<le> q \<and> q \<le> 65535)"
| "is_port _ = False"

section \<open>Errors and promises\<close>

text \<open>
  An error object: its message and its \<^verbatim>\<open>code\<close> property. \<^verbatim>\<open>new Error(m)\<close> has no
  code; the errors of the socket carry one (\<^verbatim>\<open>'ECONNREFUSED'\<close>, \<^verbatim>\<open>'EHOSTUNREACH'\<close>, ...).
\<close>

datatype jserror = Error (message: string) (code: jsval)

definition new_Error :: "string \<Rightarrow> jserror" where
  "new_Error m = Error m Undefined"

text \<open>
  A promise settles once: \<^verbatim>\<open>resolve\<close> and \<^verbatim>\<open>reject\<close> on a settled promise do
  nothing. \<^verbatim>\<open>getDeferred\<close> returns a pending promise with its two functions.
\<close>

datatype 'a promise = Pending | Resolved 'a | Rejected jserror

definition getDeferred :: "'a promise" where
  "getDeferred = Pending"

fun resolve :: "'a \<Rightarrow> 'a promise \<Rightarrow> 'a promise" where
  "resolve v Pending = Resolved v"
| "resolve v p = p"

fun reject :: "jserror \<Rightarrow> 'a promise \<Rightarrow> 'a promise" where
  "reject e Pending = Rejected e"
| "reject e p = p"

section \<open>Constants and \<^verbatim>\<open>makeOptionsObj\<close>\<close>

definition TIMEOUT :: jsval where
  "TIMEOUT = Num 2000"

definition RETRY_TIME :: jsval where
  "RETRY_TIME = Num 250"

definition LOCALHOST :: jsval where
  "LOCALHOST = Str ''127.0.0.1''"

text \<open>The object literal of \<^verbatim>\<open>makeOptionsObj\<close>: all five properties are own properties.\<close>

definition makeOptionsObj :: "jsval \<Rightarrow> jsval \<Rightarrow> jsval \<Rightarrow> jsval \<Rightarrow> jsval \<Rightarrow> obj" where
  "makeOptionsObj port host inUse retryTimeMs timeOutMs =
     [''port'' \<mapsto> port, ''host'' \<mapsto> host, ''inUse'' \<mapsto> inUse,
      ''retryTimeMs'' \<mapsto> retryTimeMs, ''timeOutMs'' \<mapsto> timeOutMs]"

section \<open>The probe: \<^verbatim>\<open>check\<close>\<close>

text \<open>
  What the program does to the outside, in program order: the calls on the socket, on
  the timers and on the promises.
\<close>

datatype timer_cb = TimeoutFunc | DoCheck

datatype action =
    NewSocket
  | Once string
  | Connect jsval jsval
  | RemoveAllListeners string
  | End
  | Destroy
  | Unref
  | Resolve bool
  | Reject jserror
  | SetTimeout nat timer_cb jsval
  | ClearTimeout nat
  | CallCheck jsval jsval
  | OuterResolve
  | OuterReject jserror

text \<open>
  The client socket as \<^verbatim>\<open>check\<close> sees it: whether its \<^verbatim>\<open>once\<close> listeners for
  \<^verbatim>\<open>'connect'\<close> and \<^verbatim>\<open>'error'\<close> are still registered, the address it was asked to
  connect to, and whether it was ended, destroyed and unreferenced.
\<close>

record socket =
  connect_listener :: bool
  error_listener :: bool
  connect_to :: "(jsval \<times> jsval) option"
  ended :: bool
  destroyed :: bool
  unrefd :: bool

text \<open>The variables of one call of \<^verbatim>\<open>check\<close>, and the trace of its actions.\<close>

record check_state =
  deferred :: "bool promise"
  c_inUse :: bool
  client :: "socket option"
  trace :: "action list"

definition cleanUp :: "check_state \<Rightarrow> check_state" where
  "cleanUp c =
     (case client c of
        None \<Rightarrow> c
      | Some k \<Rightarrow>
          c\<lparr>client := Some (k\<lparr>connect_listener := False, error_listener := False,
                               ended := True, destroyed := True, unrefd := True\<rparr>),
            trace := trace c @ [RemoveAllListeners ''connect'', RemoveAllListeners ''error'',
                                End, Destroy, Unref]\<rparr>)"

definition onConnectCb :: "check_state \<Rightarrow> check_state" where
  "onConnectCb c =
     cleanUp (c\<lparr>deferred := resolve (c_inUse c) (deferred c),
                trace := trace c @ [Resolve (c_inUse c)]\<rparr>)"

definition onErrorCb :: "jserror \<Rightarrow> check_state \<Rightarrow> check_state" where
  "onErrorCb err c =
     cleanUp
       (if code err = Str ''ECONNREFUSED''
        then c\<lparr>c_inUse := False, deferred := resolve False (deferred c),
               trace := trace c @ [Resolve False]\<rparr>
        else c\<lparr>deferred := reject err (deferred c), trace := trace c @ [Reject err]\<rparr>)"

text \<open>
  \<^verbatim>\<open>check(port, host)\<close>. \<open>inspect\<close> stands for Node's \<^verbatim>\<open>util.inspect\<close>, which is
  not part of the repository. The call returns with the promise rejected and no socket
  when the port is not valid, and otherwise with a pending promise and a socket that has
  both listeners and was asked to connect. For a number that is no valid port and that
  the package's guard lets through all the same (see \<open>is_port\<close>), the program goes on to
  \<^verbatim>\<open>client.connect\<close>, which the model does not follow: no statement below is about
  \<^verbatim>\<open>check\<close> on such a value.
\<close>

definition check :: "(jsval \<Rightarrow> string) \<Rightarrow> heap \<Rightarrow> jsval \<Rightarrow> jsval \<Rightarrow> check_state" where
  "check inspect h port host =
     (let opts = Object_assign [''host'' \<mapsto> LOCALHOST]
                   [if is_obj port then deref h port
                    else makeOptionsObj port host Undefined Undefined Undefined];
          err = new_Error (''invalid port: '' @ inspect (get opts ''port''))
      in if \<not> is_port (get opts ''port'')
         then \<lparr>deferred = reject err getDeferred, c_inUse = True, client = None,
               trace = [Reject err]\<rparr>
         else \<lparr>deferred = getDeferred, c_inUse = True,
               client = Some \<lparr>connect_listener = True, error_listener = True,
                               connect_to = Some (get opts ''port'', get opts ''host''),
                               ended = False, destroyed = False, unrefd = False\<rparr>,
               trace = [NewSocket, Once ''connect'', Once ''error'',
                        Connect (get opts ''port'') (get opts ''host'')]\<rparr>)"

text \<open>
  The events of the socket. A \<^verbatim>\<open>once\<close> listener is removed when its event is
  emitted and then called; an event with no listener of \<^verbatim>\<open>check\<close> left runs no code of
  \<^verbatim>\<open>check\<close>.
\<close>

datatype sock_event = EvConnect | EvError jserror

fun emit :: "sock_event \<Rightarrow> check_state \<Rightarrow> check_state" where
  "emit EvConnect c =
     (case client c of
        None \<Rightarrow> c
      | Some k \<Rightarrow>
          if connect_listener k
          then onConnectCb (c\<lparr>client := Some (k\<lparr>connect_listener := False\<rparr>)\<rparr>)
          else c)"
| "emit (EvError err) c =
     (case client c of
        None \<Rightarrow> c
      | Some k \<Rightarrow>
          if error_listener k
          then onErrorCb err (c\<lparr>client := Some (k\<lparr>error_listener := False\<rparr>)\<rparr>)
          else c)"

fun emits :: "sock_event list \<Rightarrow> check_state \<Rightarrow> check_state" where
  "emits [] c = c"
| "emits (e # es) c = emits es (emit e c)"

section \<open>The polling session: \<^verbatim>\<open>waitForStatus\<close>\<close>

text \<open>
  A timer that \<^verbatim>\<open>setTimeout\<close> armed and that has neither fired nor been cleared:
  its handle, the callback it will run and its delay. The callback of the deadline timer is
  \<^verbatim>\<open>timeoutFunc\<close>; the callback of a retry timer calls \<^verbatim>\<open>doCheck\<close>.
\<close>

datatype timer = Timer (tid: nat) (callback: timer_cb) (delay: jsval)

text \<open>
  The variables of one call of \<^verbatim>\<open>waitForStatus\<close> (\<open>opts\<close> is the address of the
  options object, \<open>w_deferred\<close> the promise it returns), the heap, the timers that are
  armed, the probe that is in flight with the flag that the callbacks passed to its
  \<^verbatim>\<open>then\<close> have not run yet, and the log of the session's actions.
\<close>

record wait_state =
  heap :: heap
  opts :: addr
  w_deferred :: "unit promise"
  timeoutId :: "nat option"
  timedOut :: bool
  retryId :: "nat option"
  timers :: "timer list"
  next_id :: nat
  probe :: "check_state option"
  awaiting :: bool
  log :: "action list"

text \<open>The property \<open>k\<close> of the options object, read when the code reads it.\<close>

definition opt :: "wait_state \<Rightarrow> string \<Rightarrow> jsval" where
  "opt s k = get (deref (heap s) (Obj (opts s))) k"

text \<open>
  \<^verbatim>\<open>setTimeout\<close> arms a timer and returns a new handle (a handle is an object, so it
  is truthy); \<^verbatim>\<open>clearTimeout\<close> disarms the timer with that handle, if it is still armed.
\<close>

definition setTimeout :: "timer_cb \<Rightarrow> jsval \<Rightarrow> wait_state \<Rightarrow> nat \<times> wait_state" where
  "setTimeout cb ms s =
     (next_id s,
      s\<lparr>timers := timers s @ [Timer (next_id s) cb ms],
        next_id := Suc (next_id s),
        log := log s @ [SetTimeout (next_id s) cb ms]\<rparr>)"

definition clearTimeout :: "nat \<Rightarrow> wait_state \<Rightarrow> wait_state" where
  "clearTimeout i s =
     s\<lparr>timers := filter (\<lambda>t. tid t \<noteq> i) (timers s), log := log s @ [ClearTimeout i]\<rparr>"

text \<open>The \<^verbatim>\<open>cleanUp\<close> of \<^verbatim>\<open>waitForStatus\<close>.\<close>

definition wait_cleanUp :: "wait_state \<Rightarrow> wait_state" where
  "wait_cleanUp s =
     (let s1 = (case timeoutId s of None \<Rightarrow> s | Some i \<Rightarrow> clearTimeout i s)
      in (case retryId s1 of None \<Rightarrow> s1 | Some i \<Rightarrow> clearTimeout i s1))"

definition timeoutFunc :: "wait_state \<Rightarrow> wait_state" where
  "timeoutFunc s =
     (let s1 = wait_cleanUp (s\<lparr>timedOut := True\<rparr>)
      in s1\<lparr>w_deferred := reject (new_Error ''timeout'') (w_deferred s1),
            log := log s1 @ [OuterReject (new_Error ''timeout'')]\<rparr>)"

text \<open>
  \<^verbatim>\<open>doCheck\<close> calls \<^verbatim>\<open>check(opts.port, opts.host)\<close> and passes two callbacks to the
  \<^verbatim>\<open>then\<close> of its promise: \<open>doCheck_fulfilled\<close> for a result and \<open>doCheck_rejected\<close>
  for an error.
\<close>

definition doCheck :: "(jsval \<Rightarrow> string) \<Rightarrow> wait_state \<Rightarrow> wait_state" where
  "doCheck inspect s =
     s\<lparr>probe := Some (check inspect (heap s) (opt s ''port'') (opt s ''host'')),
       awaiting := True,
       log := log s @ [CallCheck (opt s ''port'') (opt s ''host'')]\<rparr>"

definition doCheck_fulfilled :: "bool \<Rightarrow> wait_state \<Rightarrow> wait_state" where
  "doCheck_fulfilled used s =
     (if timedOut s then s
      else if Bool used = opt s ''inUse''
      then wait_cleanUp (s\<lparr>w_deferred := resolve () (w_deferred s),
                            log := log s @ [OuterResolve]\<rparr>)
      else (let (i, s1) = setTimeout DoCheck (opt s ''retryTimeMs'') s
            in s1\<lparr>retryId := Some i\<rparr>))"

definition doCheck_rejected :: "jserror \<Rightarrow> wait_state \<Rightarrow> wait_state" where
  "doCheck_rejected err s =
     (if timedOut s then s
      else wait_cleanUp (s\<lparr>w_deferred := reject err (w_deferred s),
                            log := log s @ [OuterReject err]\<rparr>))"

text \<open>
  \<^verbatim>\<open>waitForStatus(port, host, inUse, retryTimeMs, timeOutMs)\<close> up to its \<^verbatim>\<open>return\<close>.
  When the first argument is an object, \<open>opts\<close> is that very object; otherwise it is a
  new one. (\<open>is_obj\<close> holds of the values \<open>Obj a\<close> and of no other.)
\<close>

definition waitForStatus ::
  "(jsval \<Rightarrow> string) \<Rightarrow> heap \<Rightarrow> jsval \<Rightarrow> jsval \<Rightarrow> jsval \<Rightarrow> jsval \<Rightarrow> jsval \<Rightarrow> wait_state" where
  "waitForStatus inspect h port host inUse retryTimeMs timeOutMs =
     (let (h0, a) = (case port of
                       Obj a \<Rightarrow> (h, a)
                     | _ \<Rightarrow> alloc h (makeOptionsObj port host inUse retryTimeMs timeOutMs));
          s0 = \<lparr>heap = h0, opts = a, w_deferred = getDeferred, timeoutId = None,
                timedOut = False, retryId = None, timers = [], next_id = 0,
                probe = None, awaiting = False, log = []\<rparr>
      in if \<not> is_bool (opt s0 ''inUse'')
         then s0\<lparr>w_deferred := reject (new_Error ''inUse must be a boolean'') (w_deferred s0),
                 log := log s0 @ [OuterReject (new_Error ''inUse must be a boolean'')]\<rparr>
         else
           (let s1 = (if \<not> is_positiveInt (opt s0 ''retryTimeMs'')
                      then s0\<lparr>heap := set_prop (heap s0) (opts s0) ''retryTimeMs'' RETRY_TIME\<rparr>
                      else s0);
                s2 = (if \<not> is_positiveInt (opt s1 ''timeOutMs'')
                      then s1\<lparr>heap := set_prop (heap s1) (opts s1) ''timeOutMs'' TIMEOUT\<rparr>
                      else s1);
                (i, s3) = setTimeout TimeoutFunc (opt s2 ''timeOutMs'') s2
            in doCheck inspect (s3\<lparr>timeoutId := Some i\<rparr>)))"

text \<open>
  What happens after the call returned, one event at a time:
  \<^item> \<open>Fire i\<close>: the armed timer with handle \<open>i\<close> fires: it is disarmed and its callback
    runs. A timer that is not armed (it fired or was cleared) cannot fire.
  \<^item> \<open>Socket e\<close>: the socket of the probe in flight emits \<open>e\<close>.
  \<^item> \<open>Settled\<close>: the promise of the probe in flight is settled and the callback that
    \<^verbatim>\<open>doCheck\<close> passed to \<^verbatim>\<open>then\<close> for that outcome runs, once.
  The events come in any order: no delay and no clock is modelled, so every order the
  event loop can produce is one of them. Only the session writes to the heap while it
  runs: a caller that changes the options object during the session is not modelled.
\<close>

datatype event = Fire nat | Socket sock_event | Settled

fun step :: "(jsval \<Rightarrow> string) \<Rightarrow> event \<Rightarrow> wait_state \<Rightarrow> wait_state" where
  "step inspect (Fire i) s =
     (case find (\<lambda>t. tid t = i) (timers s) of
        None \<Rightarrow> s
      | Some t \<Rightarrow>
          (let s1 = s\<lparr>timers := filter (\<lambda>t. tid t \<noteq> i) (timers s)\<rparr>
           in (case callback t of
                 TimeoutFunc \<Rightarrow> timeoutFunc s1
               | DoCheck \<Rightarrow> doCheck inspect s1)))"
| "step inspect (Socket e) s =
     (case probe s of
        None \<Rightarrow> s
      | Some c \<Rightarrow> s\<lparr>probe := Some (emit e c)\<rparr>)"
| "step inspect Settled s =
     (if awaiting s
      then (case probe s of
              None \<Rightarrow> s
            | Some c \<Rightarrow>
                (case deferred c of
                   Pending \<Rightarrow> s
                 | Resolved used \<Rightarrow> doCheck_fulfilled used (s\<lparr>awaiting := False\<rparr>)
                 | Rejected err \<Rightarrow> doCheck_rejected err (s\<lparr>awaiting := False\<rparr>)))
      else s)"

fun run :: "(jsval \<Rightarrow> string) \<Rightarrow> event list \<Rightarrow> wait_state \<Rightarrow> wait_state" where
  "run inspect [] s = s"
| "run inspect (e # es) s = run inspect es (step inspect e s)"

section \<open>The wrappers\<close>

definition waitUntilFreeOnHost ::
  "(jsval \<Rightarrow> string) \<Rightarrow> heap \<Rightarrow> jsval \<Rightarrow> jsval \<Rightarrow> jsval \<Rightarrow> jsval \<Rightarrow> wait_state" where
  "waitUntilFreeOnHost inspect h port host retryTimeMs timeOutMs =
     (let (h1, a) = (if is_obj port
                     then alloc h (Object_assign Map.empty
                                     [deref h port, [''inUse'' \<mapsto> Bool False]])
                     else alloc h (makeOptionsObj port host (Bool False) retryTimeMs timeOutMs))
      in waitForStatus inspect h1 (Obj a) Undefined Undefined Undefined Undefined)"

definition waitUntilFree ::
  "(jsval \<Rightarrow> string) \<Rightarrow> heap \<Rightarrow> jsval \<Rightarrow> jsval \<Rightarrow> jsval \<Rightarrow> wait_state" where
  "waitUntilFree inspect h port retryTimeMs timeOutMs =
     (let (h1, a) = (if is_obj port
                     then alloc h (Object_assign Map.empty
                                     [deref h port,
                                      [''host'' \<mapsto> LOCALHOST, ''inUse'' \<mapsto> Bool False]])
                     else alloc h (makeOptionsObj port LOCALHOST (Bool False)
                                     retryTimeMs timeOutMs))
      in waitForStatus inspect h1 (Obj a) Undefined Undefined Undefined Undefined)"

definition waitUntilUsedOnHost ::
  "(jsval \<Rightarrow> string) \<Rightarrow> heap \<Rightarrow> jsval \<Rightarrow> jsval \<Rightarrow> jsval \<Rightarrow> jsval \<Rightarrow> wait_state" where
  "waitUntilUsedOnHost inspect h port host retryTimeMs timeOutMs =
     (let (h1, a) = (case port of
                       Obj a \<Rightarrow> (set_prop h a ''inUse'' (Bool True), a)
                     | _ \<Rightarrow> alloc h (makeOptionsObj port host (Bool True)
                                       retryTimeMs timeOutMs))
      in waitForStatus inspect h1 (Obj a) Undefined Undefined Undefined Undefined)"

definition waitUntilUsed ::
  "(jsval \<Rightarrow> string) \<Rightarrow> heap \<Rightarrow> jsval \<Rightarrow> jsval \<Rightarrow> jsval \<Rightarrow> wait_state" where
  "waitUntilUsed inspect h port retryTimeMs timeOutMs =
     (let (h1, a) = (if is_obj port
                     then alloc h (Object_assign Map.empty
                                     [deref h port,
                                      [''host'' \<mapsto> LOCALHOST, ''inUse'' \<mapsto> Bool True]])
                     else alloc h (makeOptionsObj port LOCALHOST (Bool True)
                                     retryTimeMs timeOutMs))
      in waitUntilUsedOnHost inspect h1 (Obj a) Undefined Undefined Undefined)"

text \<open>The names the module exports, in the order of its last six lines.\<close>

definition exports :: "string list" where
  "exports = [''check'', ''waitUntilFreeOnHost'', ''waitUntilFree'',
              ''waitUntilUsedOnHost'', ''waitUntilUsed'', ''waitForStatus'']"

section \<open>Notions the statements use\<close>

text \<open>
  The value \<^verbatim>\<open>check\<close> validates and the host it connects to: \<^verbatim>\<open>opts.port\<close> and
  \<^verbatim>\<open>opts.host\<close> of the object that \<^verbatim>\<open>check\<close> builds with \<^verbatim>\<open>Object.assign\<close>
  (lemmas \<open>check_opts_port\<close> and \<open>check_opts_host\<close>).
\<close>

definition port_of :: "heap \<Rightarrow> jsval \<Rightarrow> jsval" where
  "port_of h port = (if is_obj port then get (deref h port) ''port'' else port)"

definition host_of :: "heap \<Rightarrow> jsval \<Rightarrow> jsval \<Rightarrow> jsval" where
  "host_of h port host =
     (if is_obj port
      then (case deref h port ''host'' of None \<Rightarrow> LOCALHOST | Some v \<Rightarrow> v)
      else host)"

text \<open>
  The port values that the guard of \<^verbatim>\<open>check\<close> refuses on every reading: a value that
  is missing or is not a number, a negative integer, and a number above 65535. The other
  numbers outside [0, 65535] (a number that is not an integer, \<^verbatim>\<open>NaN\<close>,
  \<^verbatim>\<open>-Infinity\<close>) are left out: the spec's words refuse them and the package's guard
  does not.
\<close>

fun port_refused :: "jsval \<Rightarrow> bool" where
  "port_refused (Num q) = ((is_int q \<and> q < 0) \<or> 65535 < q)"
| "port_refused NaN = False"
| "port_refused (Infinity b) = b"
| "port_refused _ = True"

text \<open>
  The call on the promise that a socket event leads to, and the five calls of
  \<^verbatim>\<open>cleanUp\<close> on the socket.
\<close>

definition settle_action :: "sock_event \<Rightarrow> action" where
  "settle_action e =
     (case e of
        EvConnect \<Rightarrow> Resolve True
      | EvError err \<Rightarrow> if code err = Str ''ECONNREFUSED'' then Resolve False else Reject err)"

definition teardown :: "action list" where
  "teardown = [RemoveAllListeners ''connect'', RemoveAllListeners ''error'', End, Destroy, Unref]"

text \<open>
  The options object \<^verbatim>\<open>waitForStatus\<close> works on, as it is at the call (the caller's
  object, or the object made from the positional arguments), and the same object after the
  two defaults have been written into it.
\<close>

definition arg_opts :: "heap \<Rightarrow> jsval \<Rightarrow> jsval \<Rightarrow> jsval \<Rightarrow> jsval \<Rightarrow> jsval \<Rightarrow> obj" where
  "arg_opts h port host inUse retryTimeMs timeOutMs =
     (if is_obj port then deref h port
      else makeOptionsObj port host inUse retryTimeMs timeOutMs)"

definition with_defaults :: "obj \<Rightarrow> obj" where
  "with_defaults ob =
     (let o1 = (if is_positiveInt (get ob ''retryTimeMs'') then ob
                else ob(''retryTimeMs'' \<mapsto> RETRY_TIME))
      in if is_positiveInt (get o1 ''timeOutMs'') then o1
         else o1(''timeOutMs'' \<mapsto> TIMEOUT))"

text \<open>
  The address the socket of the probe in flight was asked to connect to, if the probe
  has a socket.
\<close>

definition target :: "wait_state \<Rightarrow> (jsval \<times> jsval) option" where
  "target s = (case probe s of
                 None \<Rightarrow> None
               | Some c \<Rightarrow> (case client c of None \<Rightarrow> None | Some k \<Rightarrow> connect_to k))"

text \<open>
  The socket after \<^verbatim>\<open>cleanUp\<close>: no listener left, ended, destroyed and unreferenced.
\<close>

definition torn_down :: "jsval \<Rightarrow> jsval \<Rightarrow> socket" where
  "torn_down port host =
     \<lparr>connect_listener = False, error_listener = False, connect_to = Some (port, host),
      ended = True, destroyed = True, unrefd = True\<rparr>"

section \<open>Invariants of a session\<close>

text \<open>
  The retry timers that are armed. Every armed timer is the one \<open>timeoutId\<close> or
  \<open>retryId\<close> names (\<open>owned\<close>); handles are never reused (\<open>fresh\<close>); the promise of a
  probe is never rejected with a connection-refused error (\<open>probe_ok\<close>). A session is
  \<open>quiet\<close> when no timer is armed and no callback of a probe can act any more.
\<close>

definition retry_timers :: "wait_state \<Rightarrow> timer list" where
  "retry_timers s = filter (\<lambda>t. callback t = DoCheck) (timers s)"

definition owned :: "wait_state \<Rightarrow> bool" where
  "owned s = (\<forall>t \<in> set (timers s).
                (callback t = TimeoutFunc \<and> timeoutId s = Some (tid t)) \<or>
                (callback t = DoCheck \<and> retryId s = Some (tid t)))"

definition fresh :: "wait_state \<Rightarrow> bool" where
  "fresh s = (distinct (map tid (timers s)) \<and> (\<forall>t \<in> set (timers s). tid t < next_id s))"

definition probe_ok :: "wait_state \<Rightarrow> bool" where
  "probe_ok s = (case probe s of
                   None \<Rightarrow> True
                 | Some c \<Rightarrow>
                     (case deferred c of
                        Rejected err \<Rightarrow> code err \<noteq> Str ''ECONNREFUSED''
                      | _ \<Rightarrow> True))"

definition inv :: "wait_state \<Rightarrow> bool" where
  "inv s = (owned s \<and>
            (awaiting s \<longrightarrow> retry_timers s = []) \<and>
            length (retry_timers s) \<le> 1 \<and>
            (w_deferred s \<noteq> Pending \<longrightarrow> timers s = [] \<and> (awaiting s \<longrightarrow> timedOut s)) \<and>
            (timedOut s \<longrightarrow> w_deferred s = Rejected (new_Error ''timeout'')))"

definition quiet :: "wait_state \<Rightarrow> bool" where
  "quiet s = (timers s = [] \<and> (awaiting s \<longrightarrow> timedOut s))"

section \<open>Example inputs\<close>

text \<open>
  Options like those of \<^verbatim>\<open>test/waitUntilUsed.js\<close>: port 44204 on the loopback address,
  polled every 500 ms for at most 4000 ms; the same port on another host, with no
  \<open>inUse\<close>; and an object whose retry interval is not an integer and whose timeout is
  under a misspelt name. Two errors of the socket: connection refused, and host
  unreachable.
\<close>

definition ex_opts :: obj where
  "ex_opts = [''port'' \<mapsto> Num 44204, ''host'' \<mapsto> Str ''127.0.0.1'', ''inUse'' \<mapsto> Bool True,
              ''retryTimeMs'' \<mapsto> Num 500, ''timeOutMs'' \<mapsto> Num 4000]"

definition ex_remote :: obj where
  "ex_remote = [''port'' \<mapsto> Num 44204, ''host'' \<mapsto> Str ''example.com'']"

definition ex_loose :: obj where
  "ex_loose = [''port'' \<mapsto> Num 44205, ''inUse'' \<mapsto> Bool True, ''retryTimeMs'' \<mapsto> Num (3 / 2),
               ''tmieOutMs'' \<mapsto> Num 2000]"

definition ex_refused :: jserror where
  "ex_refused = Error ''connect ECONNREFUSED 127.0.0.1:44204'' (Str ''ECONNREFUSED'')"

definition ex_unreachable :: jserror where
  "ex_unreachable = Error ''connect EHOSTUNREACH 10.0.0.1:44204'' (Str ''EHOSTUNREACH'')"

text \<open>
  A \<^verbatim>\<open>util.inspect\<close> for the examples: it prints a string between single quotes, as
  Node does for a string without quotes of its own, and the words \<^verbatim>\<open>undefined\<close>,
  \<^verbatim>\<open>null\<close>, \<^verbatim>\<open>true\<close>, \<^verbatim>\<open>false\<close> and \<^verbatim>\<open>NaN\<close>. The theorems hold for every
  \<open>inspect\<close>; only the examples use this one.
\<close>

fun inspect_ex :: "jsval \<Rightarrow> string" where
  "inspect_ex (Str s) = [CHR 0x27] @ s @ [CHR 0x27]"
| "inspect_ex Undefined = ''undefined''"
| "inspect_ex Null = ''null''"
| "inspect_ex (Bool b) = (if b then ''true'' else ''false'')"
| "inspect_ex NaN = ''NaN''"
| "inspect_ex _ = ''?''"

section \<open>Basic facts\<close>

lemma is_int_of_int [simp]: "is_int (of_int k)"
  by (simp add: is_int_def)

lemma is_int_numeral [simp]: "is_int (numeral n)"
  by (simp add: is_int_def)

lemma is_int_0 [simp]: "is_int 0"
  by (simp add: is_int_def)

lemma not_is_int_half: "\<not> is_int (3 / 2)"
proof -
  have "\<lfloor>(3::rat) / 2\<rfloor> = 1"
    using floor_divide_of_int_eq [of 3 2, where ?'a = rat] by simp
  then show ?thesis by (simp add: is_int_def)
qed

lemma check_opts_port:
  "get (Object_assign [''host'' \<mapsto> LOCALHOST]
          [if is_obj port then deref h port
           else makeOptionsObj port host Undefined Undefined Undefined]) ''port''
   = port_of h port"
  by (simp add: Object_assign_def get_def port_of_def makeOptionsObj_def map_add_def
      split: option.splits)

lemma check_opts_host:
  "get (Object_assign [''host'' \<mapsto> LOCALHOST]
          [if is_obj port then deref h port
           else makeOptionsObj port host Undefined Undefined Undefined]) ''host''
   = host_of h port host"
  by (simp add: Object_assign_def get_def host_of_def makeOptionsObj_def map_add_def
      split: option.splits)

lemma check_invalid:
  "\<not> is_port (port_of h port) \<Longrightarrow>
   check inspect h port host =
     \<lparr>deferred = Rejected (new_Error (''invalid port: '' @ inspect (port_of h port))),
      c_inUse = True, client = None,
      trace = [Reject (new_Error (''invalid port: '' @ inspect (port_of h port)))]\<rparr>"
  unfolding check_def Let_def check_opts_port by (simp add: getDeferred_def)

lemma check_valid:
  "is_port (port_of h port) \<Longrightarrow>
   check inspect h port host =
     \<lparr>deferred = Pending, c_inUse = True,
      client = Some \<lparr>connect_listener = True, error_listener = True,
                      connect_to = Some (port_of h port, host_of h port host),
                      ended = False, destroyed = False, unrefd = False\<rparr>,
      trace = [NewSocket, Once ''connect'', Once ''error'',
               Connect (port_of h port) (host_of h port host)]\<rparr>"
  unfolding check_def Let_def check_opts_port check_opts_host by (simp add: getDeferred_def)

lemma emit_check_valid:
  "is_port (port_of h port) \<Longrightarrow>
   emit e (check inspect h port host) =
     \<lparr>deferred = (case e of
                    EvConnect \<Rightarrow> Resolved True
                  | EvError err \<Rightarrow>
                      if code err = Str ''ECONNREFUSED'' then Resolved False else Rejected err),
      c_inUse = (case e of
                   EvConnect \<Rightarrow> True
                 | EvError err \<Rightarrow> code err \<noteq> Str ''ECONNREFUSED''),
      client = Some \<lparr>connect_listener = False, error_listener = False,
                      connect_to = Some (port_of h port, host_of h port host),
                      ended = True, destroyed = True, unrefd = True\<rparr>,
      trace = [NewSocket, Once ''connect'', Once ''error'',
               Connect (port_of h port) (host_of h port host)] @ [settle_action e] @ teardown\<rparr>"
  by (cases e)
     (simp_all add: check_valid onConnectCb_def onErrorCb_def cleanUp_def settle_action_def
        teardown_def)

lemma emit_no_listener:
  "client c = Some k \<Longrightarrow> \<not> connect_listener k \<Longrightarrow> \<not> error_listener k \<Longrightarrow> emit e c = c"
  by (cases e) simp_all

lemma emit_no_client: "client c = None \<Longrightarrow> emit e c = c"
  by (cases e) simp_all

lemma emits_no_listener:
  "client c = Some k \<Longrightarrow> \<not> connect_listener k \<Longrightarrow> \<not> error_listener k \<Longrightarrow> emits es c = c"
  by (induction es) (simp_all add: emit_no_listener)

lemma emits_no_client: "client c = None \<Longrightarrow> emits es c = c"
  by (induction es) (simp_all add: emit_no_client)

lemma get_upd [simp]: "get (ob(k \<mapsto> v)) k' = (if k' = k then v else get ob k')"
  by (simp add: get_def)

lemma get_with_defaults:
  "get (with_defaults ob) k =
     (if k = ''timeOutMs'' \<and> \<not> is_positiveInt (get ob ''timeOutMs'') then TIMEOUT
      else if k = ''retryTimeMs'' \<and> \<not> is_positiveInt (get ob ''retryTimeMs'') then RETRY_TIME
      else get ob k)"
  by (simp add: with_defaults_def Let_def)

lemma waitForStatus_obj:
  assumes "a < length h" and "is_bool (get (h ! a) ''inUse'')"
  shows "waitForStatus inspect h (Obj a) host inUse retryTimeMs timeOutMs =
     \<lparr>heap = h[a := with_defaults (h ! a)], opts = a, w_deferred = Pending,
      timeoutId = Some 0, timedOut = False, retryId = None,
      timers = [Timer 0 TimeoutFunc (get (with_defaults (h ! a)) ''timeOutMs'')],
      next_id = Suc 0,
      probe = Some (check inspect (h[a := with_defaults (h ! a)])
                      (get (h ! a) ''port'') (get (h ! a) ''host'')),
      awaiting = True,
      log = [SetTimeout 0 TimeoutFunc (get (with_defaults (h ! a)) ''timeOutMs''),
             CallCheck (get (h ! a) ''port'') (get (h ! a) ''host'')]\<rparr>"
proof -
  let ?ob = "h ! a"
  let ?r = "is_positiveInt (get ?ob ''retryTimeMs'')"
  let ?t = "is_positiveInt (get ?ob ''timeOutMs'')"
  consider (a) "?r" "?t" | (b) "?r" "\<not> ?t" | (c) "\<not> ?r" "?t" | (d) "\<not> ?r" "\<not> ?t"
    by blast
  then show ?thesis
  proof cases
    case a
    then show ?thesis using assms
      by (simp add: waitForStatus_def opt_def setTimeout_def doCheck_def
          getDeferred_def with_defaults_def list_update_same_conv)
  next
    case b
    then show ?thesis using assms
      by (simp add: waitForStatus_def opt_def set_prop_def setTimeout_def doCheck_def
          getDeferred_def with_defaults_def)
  next
    case c
    then show ?thesis using assms
      by (simp add: waitForStatus_def opt_def set_prop_def setTimeout_def doCheck_def
          getDeferred_def with_defaults_def)
  next
    case d
    then show ?thesis using assms
      by (simp add: waitForStatus_def opt_def set_prop_def setTimeout_def doCheck_def
          getDeferred_def with_defaults_def)
  qed
qed

lemma case_not_obj:
  "\<not> is_obj p \<Longrightarrow>
   (case p of Undefined \<Rightarrow> x | Null \<Rightarrow> x | Bool b \<Rightarrow> x | Num n \<Rightarrow> x | NaN \<Rightarrow> x
    | Infinity b \<Rightarrow> x | Str s \<Rightarrow> x | Obj a \<Rightarrow> f a) = x"
  by (cases p) simp_all

lemma get_makeOptionsObj:
  "get (makeOptionsObj port host inUse retryTimeMs timeOutMs) k =
     (if k = ''timeOutMs'' then timeOutMs
      else if k = ''retryTimeMs'' then retryTimeMs
      else if k = ''inUse'' then inUse
      else if k = ''host'' then host
      else if k = ''port'' then port
      else Undefined)"
  by (simp add: makeOptionsObj_def get_def)

lemma waitForStatus_args:
  assumes "\<not> is_obj port" and "is_bool inUse"
  shows "waitForStatus inspect h port host inUse retryTimeMs timeOutMs =
     \<lparr>heap = h @ [with_defaults (makeOptionsObj port host inUse retryTimeMs timeOutMs)],
      opts = length h, w_deferred = Pending,
      timeoutId = Some 0, timedOut = False, retryId = None,
      timers = [Timer 0 TimeoutFunc
                  (get (with_defaults (makeOptionsObj port host inUse retryTimeMs timeOutMs))
                     ''timeOutMs'')],
      next_id = Suc 0,
      probe = Some (check inspect
                      (h @ [with_defaults (makeOptionsObj port host inUse retryTimeMs timeOutMs)])
                      port host),
      awaiting = True,
      log = [SetTimeout 0 TimeoutFunc
               (get (with_defaults (makeOptionsObj port host inUse retryTimeMs timeOutMs))
                  ''timeOutMs''),
             CallCheck port host]\<rparr>"
proof -
  let ?ob = "makeOptionsObj port host inUse retryTimeMs timeOutMs"
  let ?r = "is_positiveInt retryTimeMs"
  let ?t = "is_positiveInt timeOutMs"
  have g: "get ?ob ''inUse'' = inUse" "get ?ob ''retryTimeMs'' = retryTimeMs"
    "get ?ob ''timeOutMs'' = timeOutMs" "get ?ob ''port'' = port" "get ?ob ''host'' = host"
    by (simp_all add: get_makeOptionsObj)
  consider (a) "?r" "?t" | (b) "?r" "\<not> ?t" | (c) "\<not> ?r" "?t" | (d) "\<not> ?r" "\<not> ?t"
    by blast
  then show ?thesis
  proof cases
    case a
    then show ?thesis using assms g
      by (simp add: waitForStatus_def case_not_obj alloc_def opt_def setTimeout_def
          doCheck_def getDeferred_def with_defaults_def)
  next
    case b
    then show ?thesis using assms g
      by (simp add: waitForStatus_def case_not_obj alloc_def opt_def set_prop_def
          setTimeout_def doCheck_def getDeferred_def with_defaults_def)
  next
    case c
    then show ?thesis using assms g
      by (simp add: waitForStatus_def case_not_obj alloc_def opt_def set_prop_def
          setTimeout_def doCheck_def getDeferred_def with_defaults_def)
  next
    case d
    then show ?thesis using assms g
      by (simp add: waitForStatus_def case_not_obj alloc_def opt_def set_prop_def
          setTimeout_def doCheck_def getDeferred_def with_defaults_def)
  qed
qed

lemma waitForStatus_not_bool:
  assumes "\<not> is_bool (get (arg_opts h port host inUse retryTimeMs timeOutMs) ''inUse'')"
  shows "waitForStatus inspect h port host inUse retryTimeMs timeOutMs =
     \<lparr>heap = (if is_obj port then h
              else h @ [makeOptionsObj port host inUse retryTimeMs timeOutMs]),
      opts = (case port of Obj a \<Rightarrow> a | _ \<Rightarrow> length h),
      w_deferred = Rejected (new_Error ''inUse must be a boolean''),
      timeoutId = None, timedOut = False, retryId = None, timers = [], next_id = 0,
      probe = None, awaiting = False,
      log = [OuterReject (new_Error ''inUse must be a boolean'')]\<rparr>"
proof (cases "is_obj port")
  case True
  then obtain a where "port = Obj a" by (cases port) simp_all
  moreover from this assms have "\<not> is_bool (get (deref h (Obj a)) ''inUse'')"
    by (simp add: arg_opts_def)
  ultimately show ?thesis
    by (simp add: waitForStatus_def opt_def getDeferred_def Let_def del: deref.simps)
next
  case False
  then show ?thesis using assms
    by (simp add: waitForStatus_def case_not_obj alloc_def opt_def getDeferred_def
        arg_opts_def Let_def)
qed

lemma wait_cleanUp_fields [simp]:
  "heap (wait_cleanUp s) = heap s"
  "opts (wait_cleanUp s) = opts s"
  "w_deferred (wait_cleanUp s) = w_deferred s"
  "timeoutId (wait_cleanUp s) = timeoutId s"
  "timedOut (wait_cleanUp s) = timedOut s"
  "retryId (wait_cleanUp s) = retryId s"
  "next_id (wait_cleanUp s) = next_id s"
  "probe (wait_cleanUp s) = probe s"
  "awaiting (wait_cleanUp s) = awaiting s"
  by (simp_all add: wait_cleanUp_def clearTimeout_def Let_def split: option.splits)

lemma timers_wait_cleanUp:
  "timers (wait_cleanUp s) =
     filter (\<lambda>t. Some (tid t) \<noteq> timeoutId s \<and> Some (tid t) \<noteq> retryId s) (timers s)"
  by (auto simp add: wait_cleanUp_def clearTimeout_def Let_def split: option.splits
      intro: filter_cong)

lemma owned_wait_cleanUp: "owned s \<Longrightarrow> timers (wait_cleanUp s) = []"
  by (auto simp add: timers_wait_cleanUp owned_def filter_empty_conv)

lemma log_wait_cleanUp:
  "log (wait_cleanUp s) =
     log s @ (case timeoutId s of None \<Rightarrow> [] | Some i \<Rightarrow> [ClearTimeout i])
           @ (case retryId s of None \<Rightarrow> [] | Some i \<Rightarrow> [ClearTimeout i])"
  by (simp add: wait_cleanUp_def clearTimeout_def Let_def split: option.splits)

lemma timeoutFunc_fields [simp]:
  "heap (timeoutFunc s) = heap s"
  "opts (timeoutFunc s) = opts s"
  "w_deferred (timeoutFunc s) = reject (new_Error ''timeout'') (w_deferred s)"
  "timeoutId (timeoutFunc s) = timeoutId s"
  "timedOut (timeoutFunc s) = True"
  "retryId (timeoutFunc s) = retryId s"
  "next_id (timeoutFunc s) = next_id s"
  "probe (timeoutFunc s) = probe s"
  "awaiting (timeoutFunc s) = awaiting s"
  "timers (timeoutFunc s) = timers (wait_cleanUp s)"
  by (simp_all add: timeoutFunc_def Let_def timers_wait_cleanUp)

lemma doCheck_fields [simp]:
  "heap (doCheck inspect s) = heap s"
  "opts (doCheck inspect s) = opts s"
  "w_deferred (doCheck inspect s) = w_deferred s"
  "timeoutId (doCheck inspect s) = timeoutId s"
  "timedOut (doCheck inspect s) = timedOut s"
  "retryId (doCheck inspect s) = retryId s"
  "next_id (doCheck inspect s) = next_id s"
  "timers (doCheck inspect s) = timers s"
  "awaiting (doCheck inspect s) = True"
  "probe (doCheck inspect s) = Some (check inspect (heap s) (opt s ''port'') (opt s ''host''))"
  "log (doCheck inspect s) = log s @ [CallCheck (opt s ''port'') (opt s ''host'')]"
  by (simp_all add: doCheck_def)

lemma heap_step [simp]: "heap (step inspect e s) = heap s"
  by (cases e)
     (simp_all add: Let_def doCheck_fulfilled_def doCheck_rejected_def setTimeout_def
        split: option.splits timer_cb.splits promise.splits prod.splits)

lemma opts_step [simp]: "opts (step inspect e s) = opts s"
  by (cases e)
     (simp_all add: Let_def doCheck_fulfilled_def doCheck_rejected_def setTimeout_def
        split: option.splits timer_cb.splits promise.splits prod.splits)

lemma opt_step [simp]: "opt (step inspect e s) k = opt s k"
  by (simp add: opt_def)

lemma opt_run [simp]: "opt (run inspect es s) k = opt s k"
  by (induction es arbitrary: s) simp_all

lemma find_SomeD: "find P xs = Some t \<Longrightarrow> t \<in> set xs \<and> P t"
  by (induction xs) (auto split: if_splits)

lemma inv_timeoutFunc:
  assumes "inv s" and "timers s \<noteq> []"
  shows "inv (timeoutFunc (s\<lparr>timers := filter (\<lambda>t. tid t \<noteq> i) (timers s)\<rparr>))"
proof -
  let ?s1 = "s\<lparr>timers := filter (\<lambda>t. tid t \<noteq> i) (timers s)\<rparr>"
  from assms have p: "w_deferred s = Pending" by (auto simp: inv_def)
  from assms have "owned ?s1" by (auto simp: inv_def owned_def)
  then have "timers (wait_cleanUp ?s1) = []" by (rule owned_wait_cleanUp)
  then show ?thesis
    using p by (simp add: inv_def owned_def retry_timers_def)
qed

lemma inv_retry_fires:
  assumes "inv s" and "t \<in> set (timers s)" and "callback t = DoCheck"
  shows "inv (doCheck inspect (s\<lparr>timers := filter (\<lambda>u. tid u \<noteq> tid t) (timers s)\<rparr>))"
proof -
  from assms have p: "w_deferred s = Pending" by (auto simp: inv_def)
  with assms have nt: "\<not> timedOut s" by (auto simp: inv_def)
  from assms have r: "retryId s = Some (tid t)" by (auto simp: inv_def owned_def)
  from assms have o: "owned s" by (simp add: inv_def)
  have "filter (\<lambda>u. callback u = DoCheck) (filter (\<lambda>u. tid u \<noteq> tid t) (timers s)) = []"
    using o r by (auto simp: owned_def filter_empty_conv)
  then show ?thesis
    using o p nt by (auto simp: inv_def owned_def retry_timers_def)
qed

lemma inv_fire: "inv s \<Longrightarrow> inv (step inspect (Fire i) s)"
proof (cases "find (\<lambda>t. tid t = i) (timers s)")
  case None
  assume "inv s"
  with None show ?thesis by simp
next
  case (Some t)
  assume i: "inv s"
  from Some have t: "t \<in> set (timers s)" "tid t = i" by (auto dest: find_SomeD)
  show ?thesis
  proof (cases "callback t")
    case TimeoutFunc
    from t have "timers s \<noteq> []" by auto
    with i TimeoutFunc Some show ?thesis by (simp add: inv_timeoutFunc)
  next
    case DoCheck
    with i t Some show ?thesis
      using inv_retry_fires [OF i t(1) DoCheck, of inspect] by simp
  qed
qed

lemma inv_socket: "inv s \<Longrightarrow> inv (step inspect (Socket e) s)"
  by (cases "probe s") (simp_all add: inv_def owned_def retry_timers_def)

lemma inv_fulfilled:
  assumes "inv s" and "awaiting s"
  shows "inv (doCheck_fulfilled used (s\<lparr>awaiting := False\<rparr>))"
proof -
  let ?s = "s\<lparr>awaiting := False\<rparr>"
  from assms have o: "owned ?s" by (simp add: inv_def owned_def)
  show ?thesis
  proof (cases "timedOut s")
    case True
    with assms show ?thesis
      by (simp add: doCheck_fulfilled_def inv_def owned_def retry_timers_def)
  next
    case False
    with assms have p: "w_deferred s = Pending" by (auto simp: inv_def)
    show ?thesis
    proof (cases "Bool used = opt s ''inUse''")
      case True
      let ?s2 = "?s\<lparr>w_deferred := resolve () (w_deferred ?s), log := log ?s @ [OuterResolve]\<rparr>"
      from o have "owned ?s2" by (simp add: owned_def)
      then have "timers (wait_cleanUp ?s2) = []" by (rule owned_wait_cleanUp)
      with True False p show ?thesis
        by (simp add: doCheck_fulfilled_def opt_def inv_def owned_def retry_timers_def)
    next
      case nomatch: False
      from assms have "retry_timers s = []" by (simp add: inv_def)
      with nomatch False p assms show ?thesis
        by (auto simp add: doCheck_fulfilled_def opt_def setTimeout_def inv_def owned_def
            retry_timers_def filter_empty_conv)
    qed
  qed
qed

lemma inv_rejected:
  assumes "inv s" and "awaiting s"
  shows "inv (doCheck_rejected err (s\<lparr>awaiting := False\<rparr>))"
proof -
  let ?s = "s\<lparr>awaiting := False\<rparr>"
  from assms have o: "owned ?s" by (simp add: inv_def owned_def)
  show ?thesis
  proof (cases "timedOut s")
    case True
    with assms show ?thesis
      by (simp add: doCheck_rejected_def inv_def owned_def retry_timers_def)
  next
    case False
    with assms have p: "w_deferred s = Pending" by (auto simp: inv_def)
    let ?s2 = "?s\<lparr>w_deferred := reject err (w_deferred ?s), log := log ?s @ [OuterReject err]\<rparr>"
    from o have "owned ?s2" by (simp add: owned_def)
    then have "timers (wait_cleanUp ?s2) = []" by (rule owned_wait_cleanUp)
    with False p show ?thesis
      by (simp add: doCheck_rejected_def inv_def owned_def retry_timers_def)
  qed
qed

lemma inv_settled: "inv s \<Longrightarrow> inv (step inspect Settled s)"
  by (auto simp add: inv_fulfilled inv_rejected split: option.splits promise.splits)

lemma inv_step: "inv s \<Longrightarrow> inv (step inspect e s)"
  by (cases e) (simp_all only: inv_fire inv_socket inv_settled)

lemma inv_run: "inv s \<Longrightarrow> inv (run inspect es s)"
  by (induction es arbitrary: s) (simp_all add: inv_step)

lemma step_fields [simp]:
  "timeoutId (step inspect e s) = timeoutId s"
  by (cases e)
     (simp_all add: Let_def doCheck_fulfilled_def doCheck_rejected_def setTimeout_def
        split: option.splits timer_cb.splits promise.splits prod.splits)

lemma timeoutId_run [simp]: "timeoutId (run inspect es s) = timeoutId s"
  by (induction es arbitrary: s) simp_all

lemma fresh_step: "fresh s \<Longrightarrow> fresh (step inspect e s)"
proof (cases e)
  case (Fire i)
  assume "fresh s"
  then show ?thesis using Fire
    by (auto simp add: fresh_def Let_def timers_wait_cleanUp distinct_map_filter
        split: option.splits timer_cb.splits)
next
  case (Socket x)
  assume "fresh s"
  then show ?thesis using Socket by (auto simp add: fresh_def split: option.splits)
next
  case Settled
  assume "fresh s"
  then show ?thesis using Settled
    by (auto simp add: fresh_def doCheck_fulfilled_def doCheck_rejected_def setTimeout_def
        timers_wait_cleanUp distinct_map_filter
        split: option.splits promise.splits)
qed

lemma fresh_run: "fresh s \<Longrightarrow> fresh (run inspect es s)"
  by (induction es arbitrary: s) (simp_all add: fresh_step)

lemma deferred_check_ok:
  "deferred (check inspect h port host) = Rejected err \<Longrightarrow> code err \<noteq> Str ''ECONNREFUSED''"
  by (cases "is_port (port_of h port)") (auto simp add: check_valid check_invalid new_Error_def)

lemma deferred_emit_ok:
  assumes "\<And>err. deferred c = Rejected err \<Longrightarrow> code err \<noteq> Str ''ECONNREFUSED''"
    and "deferred (emit e c) = Rejected err"
  shows "code err \<noteq> Str ''ECONNREFUSED''"
proof (cases "deferred c = Pending")
  case True
  with assms(2) show ?thesis
    by (cases e)
       (auto simp add: onConnectCb_def onErrorCb_def cleanUp_def
          split: option.splits if_splits)
next
  case False
  then have "deferred (emit e c) = deferred c"
    by (cases e; cases "deferred c")
       (auto simp add: onConnectCb_def onErrorCb_def cleanUp_def split: option.splits)
  with assms show ?thesis by simp
qed

lemma probe_ok_step: "probe_ok s \<Longrightarrow> probe_ok (step inspect e s)"
proof (cases e)
  case (Fire i)
  assume "probe_ok s"
  then show ?thesis using Fire
    by (auto simp add: probe_ok_def Let_def timeoutFunc_def
        split: option.splits timer_cb.splits promise.splits dest: deferred_check_ok)
next
  case (Socket x)
  assume p: "probe_ok s"
  show ?thesis
  proof (cases "probe s")
    case None
    with p Socket show ?thesis by simp
  next
    case (Some c)
    with p have "\<And>err. deferred c = Rejected err \<Longrightarrow> code err \<noteq> Str ''ECONNREFUSED''"
      by (simp add: probe_ok_def)
    then have "\<And>err. deferred (emit x c) = Rejected err \<Longrightarrow> code err \<noteq> Str ''ECONNREFUSED''"
      by (rule deferred_emit_ok)
    with Some Socket show ?thesis
      by (simp add: probe_ok_def split: promise.splits)
  qed
next
  case Settled
  assume "probe_ok s"
  then show ?thesis using Settled
    by (auto simp add: probe_ok_def doCheck_fulfilled_def doCheck_rejected_def setTimeout_def
        split: option.splits promise.splits)
qed

lemma probe_ok_run: "probe_ok s \<Longrightarrow> probe_ok (run inspect es s)"
  by (induction es arbitrary: s) (simp_all add: probe_ok_step)

lemma quiet_step:
  assumes "quiet s"
  shows "quiet (step inspect e s) \<and> w_deferred (step inspect e s) = w_deferred s \<and>
         log (step inspect e s) = log s \<and> timedOut (step inspect e s) = timedOut s"
proof (cases e)
  case (Fire i)
  with assms show ?thesis by (simp add: quiet_def)
next
  case (Socket x)
  with assms show ?thesis by (simp add: quiet_def split: option.splits)
next
  case Settled
  with assms show ?thesis
    by (auto simp add: quiet_def doCheck_fulfilled_def doCheck_rejected_def
        split: option.splits promise.splits)
qed

lemma quiet_run:
  "quiet s \<Longrightarrow>
   quiet (run inspect es s) \<and> w_deferred (run inspect es s) = w_deferred s \<and>
   log (run inspect es s) = log s \<and> timedOut (run inspect es s) = timedOut s"
proof (induction es arbitrary: s)
  case Nil
  then show ?case by simp
next
  case (Cons e es)
  from Cons.prems have q: "quiet (step inspect e s)" by (simp add: quiet_step)
  show ?case
    using Cons.IH [OF q] quiet_step [OF Cons.prems, of inspect e] by simp
qed

lemma inv_waitForStatus: "inv (waitForStatus inspect h port host inUse retryTimeMs timeOutMs)"
proof (cases "is_bool (get (arg_opts h port host inUse retryTimeMs timeOutMs) ''inUse'')")
  case False
  then show ?thesis
    by (simp add: waitForStatus_not_bool inv_def owned_def retry_timers_def)
next
  case True
  show ?thesis
  proof (cases "is_obj port")
    case False
    with True have "is_bool inUse" by (simp add: arg_opts_def get_makeOptionsObj)
    with False show ?thesis
      by (simp add: waitForStatus_args inv_def owned_def retry_timers_def)
  next
    case obj: True
    then obtain a where a: "port = Obj a" by (cases port) simp_all
    with True have "a < length h \<and> is_bool (get (h ! a) ''inUse'')"
      by (auto simp add: arg_opts_def get_def split: if_splits)
    with a show ?thesis
      by (simp add: waitForStatus_obj inv_def owned_def retry_timers_def)
  qed
qed

lemma fresh_waitForStatus: "fresh (waitForStatus inspect h port host inUse retryTimeMs timeOutMs)"
proof (cases "is_bool (get (arg_opts h port host inUse retryTimeMs timeOutMs) ''inUse'')")
  case False
  then show ?thesis
    by (simp add: waitForStatus_not_bool fresh_def)
next
  case True
  show ?thesis
  proof (cases "is_obj port")
    case False
    with True have "is_bool inUse" by (simp add: arg_opts_def get_makeOptionsObj)
    with False show ?thesis
      by (simp add: waitForStatus_args fresh_def)
  next
    case obj: True
    then obtain a where a: "port = Obj a" by (cases port) simp_all
    with True have "a < length h \<and> is_bool (get (h ! a) ''inUse'')"
      by (auto simp add: arg_opts_def get_def split: if_splits)
    with a show ?thesis
      by (simp add: waitForStatus_obj fresh_def)
  qed
qed

lemma probe_ok_waitForStatus:
  "probe_ok (waitForStatus inspect h port host inUse retryTimeMs timeOutMs)"
proof (cases "is_bool (get (arg_opts h port host inUse retryTimeMs timeOutMs) ''inUse'')")
  case False
  then show ?thesis
    by (simp add: waitForStatus_not_bool probe_ok_def)
next
  case True
  show ?thesis
  proof (cases "is_obj port")
    case False
    with True have "is_bool inUse" by (simp add: arg_opts_def get_makeOptionsObj)
    with False show ?thesis
      by (auto simp add: waitForStatus_args probe_ok_def split: promise.splits
          dest: deferred_check_ok)
  next
    case obj: True
    then obtain a where a: "port = Obj a" by (cases port) simp_all
    with True have "a < length h \<and> is_bool (get (h ! a) ''inUse'')"
      by (auto simp add: arg_opts_def get_def split: if_splits)
    with a show ?thesis
      by (auto simp add: waitForStatus_obj probe_ok_def split: promise.splits
          dest: deferred_check_ok)
  qed
qed

lemma waitForStatus_start:
  assumes "is_bool (get (arg_opts h port host inUse retryTimeMs timeOutMs) ''inUse'')"
    and "ob = with_defaults (arg_opts h port host inUse retryTimeMs timeOutMs)"
    and "s0 = waitForStatus inspect h port host inUse retryTimeMs timeOutMs"
  shows "opt s0 k = get ob k"
    and "log s0 = [SetTimeout 0 TimeoutFunc (get ob ''timeOutMs''),
                   CallCheck (get ob ''port'') (get ob ''host'')]"
    and "timers s0 = [Timer 0 TimeoutFunc (get ob ''timeOutMs'')]"
    and "probe s0 = Some (check inspect (heap s0) (get ob ''port'') (get ob ''host''))"
    and "awaiting s0" and "w_deferred s0 = Pending" and "timeoutId s0 = Some 0"
    and "\<not> timedOut s0" and "retryId s0 = None" and "next_id s0 = Suc 0"
proof -
  have "opt s0 k = get ob k \<and>
        log s0 = [SetTimeout 0 TimeoutFunc (get ob ''timeOutMs''),
                  CallCheck (get ob ''port'') (get ob ''host'')] \<and>
        timers s0 = [Timer 0 TimeoutFunc (get ob ''timeOutMs'')] \<and>
        probe s0 = Some (check inspect (heap s0) (get ob ''port'') (get ob ''host'')) \<and>
        awaiting s0 \<and> w_deferred s0 = Pending \<and> timeoutId s0 = Some 0 \<and>
        \<not> timedOut s0 \<and> retryId s0 = None \<and> next_id s0 = Suc 0"
  proof (cases "is_obj port")
    case False
    with assms(1) have "is_bool inUse" by (simp add: arg_opts_def get_makeOptionsObj)
    with False assms(2,3) show ?thesis
      by (simp add: waitForStatus_args opt_def arg_opts_def get_with_defaults get_makeOptionsObj)
  next
    case True
    then obtain a where a: "port = Obj a" by (cases port) simp_all
    with assms(1) have "a < length h \<and> is_bool (get (h ! a) ''inUse'')"
      by (auto simp add: arg_opts_def get_def split: if_splits)
    with a assms(2,3) show ?thesis
      by (simp add: waitForStatus_obj opt_def arg_opts_def get_with_defaults)
  qed
  then show "opt s0 k = get ob k"
    and "log s0 = [SetTimeout 0 TimeoutFunc (get ob ''timeOutMs''),
                   CallCheck (get ob ''port'') (get ob ''host'')]"
    and "timers s0 = [Timer 0 TimeoutFunc (get ob ''timeOutMs'')]"
    and "probe s0 = Some (check inspect (heap s0) (get ob ''port'') (get ob ''host''))"
    and "awaiting s0" and "w_deferred s0 = Pending" and "timeoutId s0 = Some 0"
    and "\<not> timedOut s0" and "retryId s0 = None" and "next_id s0 = Suc 0"
    by simp_all
qed

lemma opt_update [simp]:
  "opt (s\<lparr>w_deferred := a1\<rparr>) k = opt s k"
  "opt (s\<lparr>timeoutId := a2\<rparr>) k = opt s k"
  "opt (s\<lparr>timedOut := a3\<rparr>) k = opt s k"
  "opt (s\<lparr>retryId := a4\<rparr>) k = opt s k"
  "opt (s\<lparr>timers := a5\<rparr>) k = opt s k"
  "opt (s\<lparr>next_id := a6\<rparr>) k = opt s k"
  "opt (s\<lparr>probe := a7\<rparr>) k = opt s k"
  "opt (s\<lparr>awaiting := a8\<rparr>) k = opt s k"
  "opt (s\<lparr>log := a9\<rparr>) k = opt s k"
  by (simp_all add: opt_def)

lemma find_fresh:
  "\<forall>t \<in> set ts. tid t < n \<Longrightarrow> find (\<lambda>t. tid t = n) (ts @ [Timer n cb ms]) = Some (Timer n cb ms)"
  by (induction ts) auto

lemma filter_fresh:
  "\<forall>t \<in> set ts. tid t < n \<Longrightarrow> filter (\<lambda>t. tid t \<noteq> n) (ts @ [Timer n cb ms]) = ts"
  by (induction ts) auto

lemma ex_opts_get:
  "get ex_opts ''port'' = Num 44204" "get ex_opts ''host'' = Str ''127.0.0.1''"
  "get ex_opts ''inUse'' = Bool True" "get ex_opts ''retryTimeMs'' = Num 500"
  "get ex_opts ''timeOutMs'' = Num 4000"
  by (simp_all add: ex_opts_def get_def)

lemma ex_opts_defaults: "with_defaults ex_opts = ex_opts"
  by (simp add: with_defaults_def ex_opts_get)

lemma ex_start:
  "waitForStatus inspect_ex [ex_opts] (Obj 0) Undefined Undefined Undefined Undefined =
     \<lparr>heap = [ex_opts], opts = 0, w_deferred = Pending,
      timeoutId = Some 0, timedOut = False, retryId = None,
      timers = [Timer 0 TimeoutFunc (Num 4000)],
      next_id = Suc 0,
      probe = Some (check inspect_ex [ex_opts] (Num 44204) (Str ''127.0.0.1'')),
      awaiting = True,
      log = [SetTimeout 0 TimeoutFunc (Num 4000), CallCheck (Num 44204) (Str ''127.0.0.1'')]\<rparr>"
  by (simp add: waitForStatus_obj ex_opts_get ex_opts_defaults)

lemma ex_port: "is_port (port_of h (Num 44204))"
  by (simp add: port_of_def)

lemma find_deadline:
  assumes "distinct (map tid ts)" and "t \<in> set ts"
  shows "find (\<lambda>u. tid u = tid t) ts = Some t"
  using assms by (induction ts) (auto simp: image_iff)

lemma waitUntilFreeOnHost_obj:
  "a < length h \<Longrightarrow>
   waitUntilFreeOnHost inspect h (Obj a) host retryTimeMs timeOutMs =
     waitForStatus inspect (h @ [(h ! a)(''inUse'' \<mapsto> Bool False)]) (Obj (length h))
       Undefined Undefined Undefined Undefined"
  by (simp add: waitUntilFreeOnHost_def alloc_def Object_assign_def)

lemma waitUntilFree_obj:
  "a < length h \<Longrightarrow>
   waitUntilFree inspect h (Obj a) retryTimeMs timeOutMs =
     waitForStatus inspect (h @ [(h ! a)(''host'' \<mapsto> LOCALHOST, ''inUse'' \<mapsto> Bool False)])
       (Obj (length h)) Undefined Undefined Undefined Undefined"
  by (simp add: waitUntilFree_def alloc_def Object_assign_def)

lemma waitUntilUsedOnHost_obj:
  "a < length h \<Longrightarrow>
   waitUntilUsedOnHost inspect h (Obj a) host retryTimeMs timeOutMs =
     waitForStatus inspect (h[a := (h ! a)(''inUse'' \<mapsto> Bool True)]) (Obj a)
       Undefined Undefined Undefined Undefined"
  by (simp add: waitUntilUsedOnHost_def set_prop_def)

lemma waitUntilUsed_obj:
  "a < length h \<Longrightarrow>
   waitUntilUsed inspect h (Obj a) retryTimeMs timeOutMs =
     waitForStatus inspect (h @ [(h ! a)(''host'' \<mapsto> LOCALHOST, ''inUse'' \<mapsto> Bool True)])
       (Obj (length h)) Undefined Undefined Undefined Undefined"
  by (simp add: waitUntilUsed_def alloc_def Object_assign_def waitUntilUsedOnHost_obj)

lemma waitForStatus_alloc:
  "\<not> is_obj port \<Longrightarrow>
   waitForStatus inspect (h @ [makeOptionsObj port host inUse retryTimeMs timeOutMs])
     (Obj (length h)) x1 x2 x3 x4 =
   waitForStatus inspect h port host inUse retryTimeMs timeOutMs"
  by (simp add: waitForStatus_def case_not_obj alloc_def)

lemma waitUntilFreeOnHost_args:
  "\<not> is_obj port \<Longrightarrow>
   waitUntilFreeOnHost inspect h port host retryTimeMs timeOutMs =
     waitForStatus inspect h port host (Bool False) retryTimeMs timeOutMs"
  by (simp add: waitUntilFreeOnHost_def alloc_def waitForStatus_alloc)

lemma waitUntilFree_args:
  "\<not> is_obj port \<Longrightarrow>
   waitUntilFree inspect h port retryTimeMs timeOutMs =
     waitForStatus inspect h port LOCALHOST (Bool False) retryTimeMs timeOutMs"
  by (simp add: waitUntilFree_def alloc_def waitForStatus_alloc)

lemma waitUntilUsedOnHost_args:
  "\<not> is_obj port \<Longrightarrow>
   waitUntilUsedOnHost inspect h port host retryTimeMs timeOutMs =
     waitForStatus inspect h port host (Bool True) retryTimeMs timeOutMs"
  by (simp add: waitUntilUsedOnHost_def case_not_obj alloc_def waitForStatus_alloc)

lemma makeOptionsObj_inUse:
  "(makeOptionsObj port host inUse retryTimeMs timeOutMs)(''inUse'' \<mapsto> inUse) =
   makeOptionsObj port host inUse retryTimeMs timeOutMs"
  by (rule ext) (simp add: makeOptionsObj_def)

lemma waitUntilUsed_args:
  "\<not> is_obj port \<Longrightarrow>
   waitUntilUsed inspect h port retryTimeMs timeOutMs =
     waitForStatus inspect h port LOCALHOST (Bool True) retryTimeMs timeOutMs"
  by (simp add: waitUntilUsed_def alloc_def waitUntilUsedOnHost_obj makeOptionsObj_inUse
      waitForStatus_alloc)

lemma is_port_not_obj: "is_port p \<Longrightarrow> \<not> is_obj p"
  by (cases p) simp_all

lemma target_waitForStatus_obj:
  assumes "a < length h" and "is_bool (get (h ! a) ''inUse'')"
    and "is_port (get (h ! a) ''port'')"
  shows "target (waitForStatus inspect h (Obj a) x1 x2 x3 x4) =
           Some (get (h ! a) ''port'', get (h ! a) ''host'')"
proof -
  from assms(3) have n: "\<not> is_obj (get (h ! a) ''port'')" by (rule is_port_not_obj)
  then have p: "\<And>h'. port_of h' (get (h ! a) ''port'') = get (h ! a) ''port''"
    and q: "\<And>h' x. host_of h' (get (h ! a) ''port'') x = x"
    by (simp_all add: port_of_def host_of_def)
  have "\<And>h'. is_port (port_of h' (get (h ! a) ''port''))"
    using assms(3) p by simp
  then show ?thesis
    using assms(1,2) by (simp add: waitForStatus_obj target_def check_valid p q)
qed

lemma log_waitForStatus_obj:
  assumes "a < length h" and "is_bool (get (h ! a) ''inUse'')"
  shows "log (waitForStatus inspect h (Obj a) x1 x2 x3 x4) =
           [SetTimeout 0 TimeoutFunc (get (with_defaults (h ! a)) ''timeOutMs''),
            CallCheck (get (h ! a) ''port'') (get (h ! a) ''host'')]"
  using assms by (simp add: waitForStatus_obj)

lemma ex_remote_get:
  "get ex_remote ''port'' = Num 44204" "get ex_remote ''host'' = Str ''example.com''"
  "get ex_remote ''inUse'' = Undefined" "get ex_remote ''retryTimeMs'' = Undefined"
  "get ex_remote ''timeOutMs'' = Undefined"
  by (simp_all add: ex_remote_def get_def)

lemma ex_loose_get:
  "get ex_loose ''port'' = Num 44205" "get ex_loose ''host'' = Undefined"
  "get ex_loose ''inUse'' = Bool True" "get ex_loose ''retryTimeMs'' = Num (3 / 2)"
  "get ex_loose ''timeOutMs'' = Undefined"
  by (simp_all add: ex_loose_def get_def)

lemma is_positiveInt_defaults [simp]: "is_positiveInt RETRY_TIME" "is_positiveInt TIMEOUT"
  by (simp_all add: RETRY_TIME_def TIMEOUT_def)

lemma with_defaults_idem: "with_defaults (with_defaults ob) = with_defaults ob"
  by (simp add: with_defaults_def Let_def)

lemma heap_waitForStatus_obj:
  assumes "a < length h" and "is_bool (get (h ! a) ''inUse'')"
  shows "heap (waitForStatus inspect h (Obj a) x1 x2 x3 x4) = h[a := with_defaults (h ! a)]"
    and "opts (waitForStatus inspect h (Obj a) x1 x2 x3 x4) = a"
    and "w_deferred (waitForStatus inspect h (Obj a) x1 x2 x3 x4) = Pending"
  using assms by (simp_all add: waitForStatus_obj)

lemma port_refused_not_port: "port_refused v \<Longrightarrow> \<not> is_port v"
  by (cases v) auto

section \<open>C1: the first probe, and what a result of a probe leads to\<close>

text \<open>
  C1. Let \<^verbatim>\<open>waitForStatus\<close> be called with options whose \<open>inUse\<close> is a boolean
  (\<open>ob\<close> is the options object after defaulting, \<open>s0\<close> the session when the call
  returns, \<open>s\<close> the session after any events \<open>es\<close>). Then:
  \<^item> the call arms the deadline timer and, as its very next action, calls \<^verbatim>\<open>check\<close>:
    the first probe is issued with no retry timer armed, that is, with no delay;
  \<^item> at any time at most one retry timer is armed;
  \<^item> when the callback for a result \<open>used\<close> of the probe runs and the session has not
    timed out: if \<open>used\<close> equals the desired \<open>inUse\<close>, the promise resolves with no
    value and both timers are cleared (no timer is left armed); otherwise exactly one timer
    is armed in addition, the retry timer with delay \<open>retryTimeMs\<close>, it is the only
    retry timer, the promise stays pending, and when that timer fires the next probe is
    issued.
\<close>

theorem waitForStatus_probe_and_retry:
  assumes "is_bool (get (arg_opts h port host inUse retryTimeMs timeOutMs) ''inUse'')"
    and "ob = with_defaults (arg_opts h port host inUse retryTimeMs timeOutMs)"
    and "s0 = waitForStatus inspect h port host inUse retryTimeMs timeOutMs"
    and "s = run inspect es s0"
  shows "log s0 = [SetTimeout 0 TimeoutFunc (get ob ''timeOutMs''),
                   CallCheck (get ob ''port'') (get ob ''host'')] \<and>
         probe s0 = Some (check inspect (heap s0) (get ob ''port'') (get ob ''host'')) \<and>
         retry_timers s0 = [] \<and>
         length (retry_timers s) \<le> 1 \<and>
         (awaiting s \<and> \<not> timedOut s \<and> probe s = Some c \<and> deferred c = Resolved used \<longrightarrow>
            (if Bool used = get ob ''inUse''
             then w_deferred (step inspect Settled s) = Resolved () \<and>
                  timers (step inspect Settled s) = [] \<and>
                  log (step inspect Settled s) =
                    log s @ [OuterResolve, ClearTimeout 0] @
                    (case retryId s of None \<Rightarrow> [] | Some i \<Rightarrow> [ClearTimeout i])
             else w_deferred (step inspect Settled s) = Pending \<and>
                  timers (step inspect Settled s) =
                    timers s @ [Timer (next_id s) DoCheck (get ob ''retryTimeMs'')] \<and>
                  retry_timers (step inspect Settled s) =
                    [Timer (next_id s) DoCheck (get ob ''retryTimeMs'')] \<and>
                  log (step inspect Settled s) =
                    log s @ [SetTimeout (next_id s) DoCheck (get ob ''retryTimeMs'')] \<and>
                  log (step inspect (Fire (next_id s)) (step inspect Settled s)) =
                    log (step inspect Settled s) @
                    [CallCheck (get ob ''port'') (get ob ''host'')]))"
proof -
  note st = waitForStatus_start [OF assms(1,2,3)]
  have i: "inv s" and f: "fresh s"
    using assms(3,4) by (simp_all add: inv_waitForStatus inv_run fresh_waitForStatus fresh_run)
  have o: "\<And>k. opt s k = get ob k"
    using assms(4) st(1) by simp
  have tid: "timeoutId s = Some 0"
    using assms(4) st(7) by simp
  have start: "log s0 = [SetTimeout 0 TimeoutFunc (get ob ''timeOutMs''),
                   CallCheck (get ob ''port'') (get ob ''host'')] \<and>
         probe s0 = Some (check inspect (heap s0) (get ob ''port'') (get ob ''host'')) \<and>
         retry_timers s0 = []"
    using st by (simp add: retry_timers_def)
  have le: "length (retry_timers s) \<le> 1"
    using i by (simp add: inv_def)
  have react: "if Bool used = get ob ''inUse''
             then w_deferred (step inspect Settled s) = Resolved () \<and>
                  timers (step inspect Settled s) = [] \<and>
                  log (step inspect Settled s) =
                    log s @ [OuterResolve, ClearTimeout 0] @
                    (case retryId s of None \<Rightarrow> [] | Some i \<Rightarrow> [ClearTimeout i])
             else w_deferred (step inspect Settled s) = Pending \<and>
                  timers (step inspect Settled s) =
                    timers s @ [Timer (next_id s) DoCheck (get ob ''retryTimeMs'')] \<and>
                  retry_timers (step inspect Settled s) =
                    [Timer (next_id s) DoCheck (get ob ''retryTimeMs'')] \<and>
                  log (step inspect Settled s) =
                    log s @ [SetTimeout (next_id s) DoCheck (get ob ''retryTimeMs'')] \<and>
                  log (step inspect (Fire (next_id s)) (step inspect Settled s)) =
                    log (step inspect Settled s) @
                    [CallCheck (get ob ''port'') (get ob ''host'')]"
    if h: "awaiting s" "\<not> timedOut s" "probe s = Some c" "deferred c = Resolved used"
  proof -
    from i h have p: "w_deferred s = Pending" by (auto simp: inv_def)
    from i h have r: "retry_timers s = []" by (simp add: inv_def)
    show ?thesis
    proof (cases "Bool used = get ob ''inUse''")
      case True
      let ?s2 = "s\<lparr>awaiting := False, w_deferred := Resolved (), log := log s @ [OuterResolve]\<rparr>"
      from i have "owned ?s2" by (simp add: inv_def owned_def)
      then have "timers (wait_cleanUp ?s2) = []" by (rule owned_wait_cleanUp)
      with True h p tid show ?thesis
        by (simp add: doCheck_fulfilled_def o log_wait_cleanUp)
    next
      case False
      let ?t = "Timer (next_id s) DoCheck (get ob ''retryTimeMs'')"
      have s': "step inspect Settled s =
          s\<lparr>awaiting := False, timers := timers s @ [?t], next_id := Suc (next_id s),
            log := log s @ [SetTimeout (next_id s) DoCheck (get ob ''retryTimeMs'')],
            retryId := Some (next_id s)\<rparr>"
        using False h by (simp add: doCheck_fulfilled_def o setTimeout_def)
      from f have lt: "\<forall>t \<in> set (timers s). tid t < next_id s" by (simp add: fresh_def)
      have "log (step inspect (Fire (next_id s)) (step inspect Settled s)) =
            log (step inspect Settled s) @ [CallCheck (get ob ''port'') (get ob ''host'')]"
        unfolding s' by (simp add: find_fresh [OF lt] filter_fresh [OF lt] o)
      moreover have "retry_timers (step inspect Settled s) = [?t]"
        unfolding s' using r by (simp add: retry_timers_def)
      ultimately show ?thesis
        using False p unfolding s' by simp
    qed
  qed
  from start le react show ?thesis by blast
qed

theorem waitForStatus_probe_and_retry_witness:
  "is_bool (get (arg_opts [ex_opts] (Obj 0) Undefined Undefined Undefined Undefined) ''inUse'') \<and>
   log (waitForStatus inspect_ex [ex_opts] (Obj 0) Undefined Undefined Undefined Undefined) =
     [SetTimeout 0 TimeoutFunc (Num 4000), CallCheck (Num 44204) (Str ''127.0.0.1'')] \<and>
   timers (step inspect_ex Settled
             (run inspect_ex [Socket (EvError ex_refused)]
                (waitForStatus inspect_ex [ex_opts] (Obj 0) Undefined Undefined Undefined
                   Undefined))) =
     [Timer 0 TimeoutFunc (Num 4000), Timer 1 DoCheck (Num 500)] \<and>
   log (step inspect_ex (Fire 1)
          (step inspect_ex Settled
             (run inspect_ex [Socket (EvError ex_refused)]
                (waitForStatus inspect_ex [ex_opts] (Obj 0) Undefined Undefined Undefined
                   Undefined)))) =
     [SetTimeout 0 TimeoutFunc (Num 4000), CallCheck (Num 44204) (Str ''127.0.0.1''),
      SetTimeout 1 DoCheck (Num 500), CallCheck (Num 44204) (Str ''127.0.0.1'')]"
proof -
  have b: "is_bool (get (arg_opts [ex_opts] (Obj 0) Undefined Undefined Undefined Undefined)
                      ''inUse'')"
    by (simp add: arg_opts_def ex_opts_get)
  have a: "arg_opts [ex_opts] (Obj 0) Undefined Undefined Undefined Undefined = ex_opts"
    by (simp add: arg_opts_def)
  show ?thesis
    using b waitForStatus_probe_and_retry [where inspect = inspect_ex
        and es = "[Socket (EvError ex_refused)]" and used = False
        and c = "emit (EvError ex_refused)
                   (check inspect_ex [ex_opts] (Num 44204) (Str ''127.0.0.1''))",
        OF b refl refl refl]
    by (simp add: a ex_opts_defaults ex_opts_get ex_start emit_check_valid [OF ex_port]
        ex_refused_def doCheck_fulfilled_def setTimeout_def opt_def retry_timers_def)
qed

section \<open>C2: the deadline\<close>

text \<open>
  C2. Let \<^verbatim>\<open>waitForStatus\<close> be called with a boolean \<open>inUse\<close>, and let \<open>s\<close> be the
  session after any events \<open>es\<close>, whatever number of probes have run or are in flight.
  The call arms one deadline timer, with handle 0 and delay \<open>timeOutMs\<close>. Once the
  promise has settled no timer is armed, so the deadline timer can only fire while the
  promise is pending. When it fires (state \<open>s'\<close>): the session is marked timed out, no
  timer is left armed (the deadline and the retry timer are cleared), and the promise is
  rejected with an error whose message is \<^verbatim>\<open>timeout\<close>. After that, whatever events
  \<open>es'\<close> follow (a probe that settles with a result or with an error among them), the
  promise stays rejected with that error, no timer is armed and the session performs no
  further action: its log does not grow.
\<close>

theorem waitForStatus_deadline:
  assumes "is_bool (get (arg_opts h port host inUse retryTimeMs timeOutMs) ''inUse'')"
    and "ob = with_defaults (arg_opts h port host inUse retryTimeMs timeOutMs)"
    and "s = run inspect es (waitForStatus inspect h port host inUse retryTimeMs timeOutMs)"
    and "s' = step inspect (Fire 0) s"
  shows "timers (waitForStatus inspect h port host inUse retryTimeMs timeOutMs) =
           [Timer 0 TimeoutFunc (get ob ''timeOutMs'')] \<and>
         (w_deferred s \<noteq> Pending \<longrightarrow> timers s = []) \<and>
         (Timer 0 TimeoutFunc d \<in> set (timers s) \<longrightarrow>
            w_deferred s = Pending \<and>
            timedOut s' \<and> timers s' = [] \<and>
            w_deferred s' = Rejected (new_Error ''timeout'') \<and>
            message (new_Error ''timeout'') = ''timeout'' \<and>
            log s' = log s @ [ClearTimeout 0] @
                     (case retryId s of None \<Rightarrow> [] | Some i \<Rightarrow> [ClearTimeout i]) @
                     [OuterReject (new_Error ''timeout'')] \<and>
            timedOut (run inspect es' s') \<and>
            timers (run inspect es' s') = [] \<and>
            w_deferred (run inspect es' s') = Rejected (new_Error ''timeout'') \<and>
            log (run inspect es' s') = log s')"
proof -
  let ?s0 = "waitForStatus inspect h port host inUse retryTimeMs timeOutMs"
  note st = waitForStatus_start [OF assms(1,2) refl, of inspect]
  have i: "inv s" and f: "fresh s"
    using assms(3) by (simp_all add: inv_waitForStatus inv_run fresh_waitForStatus fresh_run)
  have tid: "timeoutId s = Some 0"
    using assms(3) st(7) by simp
  have settled: "w_deferred s \<noteq> Pending \<longrightarrow> timers s = []"
    using i by (simp add: inv_def)
  have fires: "w_deferred s = Pending \<and>
            timedOut s' \<and> timers s' = [] \<and>
            w_deferred s' = Rejected (new_Error ''timeout'') \<and>
            message (new_Error ''timeout'') = ''timeout'' \<and>
            log s' = log s @ [ClearTimeout 0] @
                     (case retryId s of None \<Rightarrow> [] | Some i \<Rightarrow> [ClearTimeout i]) @
                     [OuterReject (new_Error ''timeout'')] \<and>
            timedOut (run inspect es' s') \<and>
            timers (run inspect es' s') = [] \<and>
            w_deferred (run inspect es' s') = Rejected (new_Error ''timeout'') \<and>
            log (run inspect es' s') = log s'"
    if armed: "Timer 0 TimeoutFunc d \<in> set (timers s)"
  proof -
    let ?s1 = "s\<lparr>timers := filter (\<lambda>t. tid t \<noteq> 0) (timers s)\<rparr>"
    from armed i have p: "w_deferred s = Pending" by (auto simp: inv_def)
    from f have "distinct (map tid (timers s))" by (simp add: fresh_def)
    from find_deadline [OF this armed]
    have fd: "find (\<lambda>u. tid u = 0) (timers s) = Some (Timer 0 TimeoutFunc d)" by simp
    then have s': "s' = timeoutFunc ?s1"
      using assms(4) by simp
    from i have "owned ?s1" by (auto simp: inv_def owned_def)
    then have e: "timers (wait_cleanUp ?s1) = []" by (rule owned_wait_cleanUp)
    have e2: "timers (wait_cleanUp (?s1\<lparr>timedOut := True\<rparr>)) = []"
      using e by (simp add: timers_wait_cleanUp)
    have now: "timedOut s' \<and> timers s' = [] \<and>
               w_deferred s' = Rejected (new_Error ''timeout'') \<and>
               log s' = log s @ [ClearTimeout 0] @
                     (case retryId s of None \<Rightarrow> [] | Some i \<Rightarrow> [ClearTimeout i]) @
                     [OuterReject (new_Error ''timeout'')]"
      unfolding s' using p e e2 tid
      by (simp add: timeoutFunc_def Let_def log_wait_cleanUp)
    then have "quiet s'" by (simp add: quiet_def)
    from quiet_run [OF this, of inspect es'] now p show ?thesis
      by (simp add: quiet_def new_Error_def)
  qed
  from st(3) settled fires show ?thesis by blast
qed

theorem waitForStatus_deadline_witness:
  "is_bool (get (arg_opts [ex_opts] (Obj 0) Undefined Undefined Undefined Undefined) ''inUse'') \<and>
   timers (waitForStatus inspect_ex [ex_opts] (Obj 0) Undefined Undefined Undefined Undefined) =
     [Timer 0 TimeoutFunc (Num 4000)] \<and>
   Timer 0 TimeoutFunc (Num 4000) \<in>
     set (timers (run inspect_ex [Socket (EvError ex_refused), Settled]
            (waitForStatus inspect_ex [ex_opts] (Obj 0) Undefined Undefined Undefined
               Undefined))) \<and>
   w_deferred (run inspect_ex [Socket EvConnect, Settled]
      (step inspect_ex (Fire 0)
         (run inspect_ex [Socket (EvError ex_refused), Settled]
            (waitForStatus inspect_ex [ex_opts] (Obj 0) Undefined Undefined Undefined
               Undefined)))) = Rejected (new_Error ''timeout'') \<and>
   log (run inspect_ex [Socket EvConnect, Settled]
      (step inspect_ex (Fire 0)
         (run inspect_ex [Socket (EvError ex_refused), Settled]
            (waitForStatus inspect_ex [ex_opts] (Obj 0) Undefined Undefined Undefined
               Undefined)))) =
     [SetTimeout 0 TimeoutFunc (Num 4000), CallCheck (Num 44204) (Str ''127.0.0.1''),
      SetTimeout 1 DoCheck (Num 500), ClearTimeout 0, ClearTimeout 1,
      OuterReject (new_Error ''timeout'')]"
proof -
  have b: "is_bool (get (arg_opts [ex_opts] (Obj 0) Undefined Undefined Undefined Undefined)
                      ''inUse'')"
    by (simp add: arg_opts_def ex_opts_get)
  show ?thesis
    using b waitForStatus_deadline [where inspect = inspect_ex
        and es = "[Socket (EvError ex_refused), Settled]" and d = "Num 4000"
        and es' = "[Socket EvConnect, Settled]",
        OF b refl refl refl]
    by (simp add: arg_opts_def ex_opts_defaults ex_opts_get ex_start
        emit_check_valid [OF ex_port] ex_refused_def doCheck_fulfilled_def setTimeout_def
        opt_def)
qed

section \<open>C3: the three outcomes of \<^verbatim>\<open>check\<close>\<close>

text \<open>
  C3. A call of \<^verbatim>\<open>check\<close> with a valid port returns a pending promise. The first
  event of the socket settles it: \<^verbatim>\<open>connect\<close> resolves it with \<open>true\<close>, an error
  whose code is \<^verbatim>\<open>ECONNREFUSED\<close> resolves it with \<open>false\<close>, and any other error
  rejects it with that error. Whatever events the socket emits afterwards change nothing:
  the state after the events \<open>e # es\<close> is the state after \<open>e\<close>.
\<close>

theorem check_one_outcome:
  assumes "is_port (port_of h port)"
  shows "deferred (check inspect h port host) = Pending \<and>
         deferred (emit e (check inspect h port host)) =
           (case e of
              EvConnect \<Rightarrow> Resolved True
            | EvError err \<Rightarrow>
                if code err = Str ''ECONNREFUSED'' then Resolved False else Rejected err) \<and>
         emits (e # es) (check inspect h port host) = emit e (check inspect h port host)"
proof -
  let ?c = "emit e (check inspect h port host)"
  have "emits es ?c = ?c"
    by (rule emits_no_listener [where k = "the (client ?c)"])
       (simp_all add: emit_check_valid [OF assms])
  moreover have "deferred (check inspect h port host) = Pending"
    by (simp add: check_valid [OF assms])
  ultimately show ?thesis
    by (simp add: emit_check_valid [OF assms])
qed

theorem check_one_outcome_witness:
  "is_port (port_of [] (Num 44204)) \<and>
   deferred (check inspect_ex [] (Num 44204) (Str ''127.0.0.1'')) = Pending \<and>
   deferred (emit EvConnect (check inspect_ex [] (Num 44204) (Str ''127.0.0.1''))) = Resolved True \<and>
   emits [EvConnect, EvError (Error ''connect ECONNRESET'' (Str ''ECONNRESET''))]
     (check inspect_ex [] (Num 44204) (Str ''127.0.0.1''))
   = emit EvConnect (check inspect_ex [] (Num 44204) (Str ''127.0.0.1''))"
proof -
  have p: "is_port (port_of [] (Num 44204))"
    by (simp add: port_of_def)
  show ?thesis
    using p check_one_outcome [OF p, of inspect_ex "Str ''127.0.0.1''" EvConnect
        "[EvError (Error ''connect ECONNRESET'' (Str ''ECONNRESET''))]"]
    by simp
qed

section \<open>C4: a probe that fails\<close>

text \<open>
  C4. Let \<^verbatim>\<open>waitForStatus\<close> be called with a boolean \<open>inUse\<close>, and let \<open>s\<close> be the
  session after any events \<open>es\<close>. The promise of a probe is never rejected with a
  connection-refused error. When the promise of the probe in flight is rejected with
  \<open>err\<close> and the session has not timed out, the callback of \<^verbatim>\<open>doCheck\<close>
  (state \<open>s'\<close>) rejects the promise of the session with that same \<open>err\<close> and clears the
  timers: none is left armed. Whatever events \<open>es'\<close> follow, the session performs no
  further action: no timer is armed, no probe is issued (the log does not grow), and the
  promise stays rejected with \<open>err\<close>.
\<close>

theorem waitForStatus_probe_error:
  assumes "is_bool (get (arg_opts h port host inUse retryTimeMs timeOutMs) ''inUse'')"
    and "s = run inspect es (waitForStatus inspect h port host inUse retryTimeMs timeOutMs)"
    and "s' = step inspect Settled s"
  shows "(probe s = Some c \<and> deferred c = Rejected err \<longrightarrow> code err \<noteq> Str ''ECONNREFUSED'') \<and>
         (awaiting s \<and> \<not> timedOut s \<and> probe s = Some c \<and> deferred c = Rejected err \<longrightarrow>
            w_deferred s' = Rejected err \<and>
            timers s' = [] \<and>
            log s' = log s @ [OuterReject err, ClearTimeout 0] @
                     (case retryId s of None \<Rightarrow> [] | Some i \<Rightarrow> [ClearTimeout i]) \<and>
            w_deferred (run inspect es' s') = Rejected err \<and>
            timers (run inspect es' s') = [] \<and>
            log (run inspect es' s') = log s')"
proof -
  note st = waitForStatus_start [OF assms(1) refl refl, of inspect]
  have i: "inv s" and k: "probe_ok s"
    using assms(2)
    by (simp_all add: inv_waitForStatus inv_run probe_ok_waitForStatus probe_ok_run)
  have tid: "timeoutId s = Some 0"
    using assms(2) st(7) by simp
  have norefused: "code err \<noteq> Str ''ECONNREFUSED''"
    if "probe s = Some c" "deferred c = Rejected err"
    using k that by (simp add: probe_ok_def)
  have react: "w_deferred s' = Rejected err \<and>
            timers s' = [] \<and>
            log s' = log s @ [OuterReject err, ClearTimeout 0] @
                     (case retryId s of None \<Rightarrow> [] | Some i \<Rightarrow> [ClearTimeout i]) \<and>
            w_deferred (run inspect es' s') = Rejected err \<and>
            timers (run inspect es' s') = [] \<and>
            log (run inspect es' s') = log s'"
    if h: "awaiting s" "\<not> timedOut s" "probe s = Some c" "deferred c = Rejected err"
  proof -
    from i h have p: "w_deferred s = Pending" by (auto simp: inv_def)
    let ?s2 = "s\<lparr>awaiting := False, w_deferred := Rejected err, log := log s @ [OuterReject err]\<rparr>"
    from i have "owned ?s2" by (simp add: inv_def owned_def)
    then have e: "timers (wait_cleanUp ?s2) = []" by (rule owned_wait_cleanUp)
    have now: "w_deferred s' = Rejected err \<and> timers s' = [] \<and> \<not> awaiting s' \<and>
            log s' = log s @ [OuterReject err, ClearTimeout 0] @
                     (case retryId s of None \<Rightarrow> [] | Some i \<Rightarrow> [ClearTimeout i])"
      using assms(3) h p e tid by (simp add: doCheck_rejected_def log_wait_cleanUp)
    then have "quiet s'" by (simp add: quiet_def)
    from quiet_run [OF this, of inspect es'] now show ?thesis
      by (simp add: quiet_def)
  qed
  from norefused react show ?thesis by blast
qed

theorem waitForStatus_probe_error_witness:
  "is_bool (get (arg_opts [ex_opts] (Obj 0) Undefined Undefined Undefined Undefined) ''inUse'') \<and>
   w_deferred (step inspect_ex Settled
      (run inspect_ex [Socket (EvError ex_unreachable)]
         (waitForStatus inspect_ex [ex_opts] (Obj 0) Undefined Undefined Undefined Undefined)))
     = Rejected ex_unreachable \<and>
   log (run inspect_ex [Fire 0, Socket EvConnect, Settled, Fire 1]
      (step inspect_ex Settled
         (run inspect_ex [Socket (EvError ex_unreachable)]
            (waitForStatus inspect_ex [ex_opts] (Obj 0) Undefined Undefined Undefined
               Undefined)))) =
     [SetTimeout 0 TimeoutFunc (Num 4000), CallCheck (Num 44204) (Str ''127.0.0.1''),
      OuterReject ex_unreachable, ClearTimeout 0]"
proof -
  have b: "is_bool (get (arg_opts [ex_opts] (Obj 0) Undefined Undefined Undefined Undefined)
                      ''inUse'')"
    by (simp add: arg_opts_def ex_opts_get)
  show ?thesis
    using b waitForStatus_probe_error [where inspect = inspect_ex
        and es = "[Socket (EvError ex_unreachable)]" and err = ex_unreachable
        and c = "emit (EvError ex_unreachable)
                   (check inspect_ex [ex_opts] (Num 44204) (Str ''127.0.0.1''))"
        and es' = "[Fire 0, Socket EvConnect, Settled, Fire 1]",
        OF b refl refl]
    by (simp add: ex_opts_get ex_start emit_check_valid [OF ex_port]
        ex_unreachable_def doCheck_rejected_def opt_def)
qed

section \<open>C5: an invalid port\<close>

text \<open>
  C5, as amended. When the value \<^verbatim>\<open>check\<close> validates is missing, is not a number, is
  a negative integer or is a number above 65535, \<^verbatim>\<open>check\<close> returns with its promise
  rejected with the error whose message is \<^verbatim>\<open>invalid port: \<close> followed by
  \<^verbatim>\<open>util.inspect\<close> of the value; it has created no socket and it has performed no other
  action (it never starts a timer). \<^verbatim>\<open>waitForStatus\<close> does not validate the port
  itself: when \<open>inUse\<close> is a boolean it first arms the deadline timer and then calls
  \<^verbatim>\<open>check(opts.port, opts.host)\<close>, which fails as above without a socket; the promise
  of the session is still pending when \<^verbatim>\<open>waitForStatus\<close> returns, and when the
  failure of the probe is delivered the session rejects with that same error and clears
  the deadline timer. Nothing is stated of the other values outside [0, 65535]: a number
  that is not an integer, \<^verbatim>\<open>NaN\<close> and \<^verbatim>\<open>-Infinity\<close>.
\<close>

theorem invalid_port_fails:
  assumes "ob = with_defaults (arg_opts h port host inUse retryTimeMs timeOutMs)"
    and "s0 = waitForStatus inspect h port host inUse retryTimeMs timeOutMs"
    and "err = new_Error (''invalid port: '' @ inspect (port_of (heap s0) (get ob ''port'')))"
    and "err1 = new_Error (''invalid port: '' @ inspect (port_of h1 port1))"
  shows "(port_refused (port_of h1 port1) \<longrightarrow>
            check inspect h1 port1 host1 =
              \<lparr>deferred = Rejected err1, c_inUse = True, client = None, trace = [Reject err1]\<rparr> \<and>
            message err1 = ''invalid port: '' @ inspect (port_of h1 port1)) \<and>
         (is_bool (get (arg_opts h port host inUse retryTimeMs timeOutMs) ''inUse'') \<and>
          port_refused (port_of (heap s0) (get ob ''port'')) \<longrightarrow>
            log s0 = [SetTimeout 0 TimeoutFunc (get ob ''timeOutMs''),
                      CallCheck (get ob ''port'') (get ob ''host'')] \<and>
            timers s0 = [Timer 0 TimeoutFunc (get ob ''timeOutMs'')] \<and>
            probe s0 = Some \<lparr>deferred = Rejected err, c_inUse = True, client = None,
                              trace = [Reject err]\<rparr> \<and>
            w_deferred s0 = Pending \<and>
            w_deferred (step inspect Settled s0) = Rejected err \<and>
            timers (step inspect Settled s0) = [] \<and>
            log (step inspect Settled s0) = log s0 @ [OuterReject err, ClearTimeout 0])"
proof -
  have c: "check inspect h1 port1 host1 =
              \<lparr>deferred = Rejected err1, c_inUse = True, client = None, trace = [Reject err1]\<rparr> \<and>
            message err1 = ''invalid port: '' @ inspect (port_of h1 port1)"
    if "port_refused (port_of h1 port1)"
    using port_refused_not_port [OF that] assms(4) by (simp add: check_invalid new_Error_def)
  have w: "log s0 = [SetTimeout 0 TimeoutFunc (get ob ''timeOutMs''),
                      CallCheck (get ob ''port'') (get ob ''host'')] \<and>
            timers s0 = [Timer 0 TimeoutFunc (get ob ''timeOutMs'')] \<and>
            probe s0 = Some \<lparr>deferred = Rejected err, c_inUse = True, client = None,
                              trace = [Reject err]\<rparr> \<and>
            w_deferred s0 = Pending \<and>
            w_deferred (step inspect Settled s0) = Rejected err \<and>
            timers (step inspect Settled s0) = [] \<and>
            log (step inspect Settled s0) = log s0 @ [OuterReject err, ClearTimeout 0]"
    if b: "is_bool (get (arg_opts h port host inUse retryTimeMs timeOutMs) ''inUse'')"
      and r: "port_refused (port_of (heap s0) (get ob ''port''))"
  proof -
    note n = port_refused_not_port [OF r]
    note st = waitForStatus_start [OF b assms(1,2)]
    have pr: "probe s0 = Some \<lparr>deferred = Rejected err, c_inUse = True, client = None,
                              trace = [Reject err]\<rparr>"
      using st(4) n assms(3) by (simp add: check_invalid)
    have "inv s0" using assms(2) by (simp add: inv_waitForStatus)
    then have "owned (s0\<lparr>awaiting := False, w_deferred := Rejected err,
                         log := log s0 @ [OuterReject err]\<rparr>)"
      by (simp add: inv_def owned_def)
    then have e: "timers (wait_cleanUp (s0\<lparr>awaiting := False, w_deferred := Rejected err,
                         log := log s0 @ [OuterReject err]\<rparr>)) = []"
      by (rule owned_wait_cleanUp)
    have "w_deferred (step inspect Settled s0) = Rejected err \<and>
          timers (step inspect Settled s0) = [] \<and>
          log (step inspect Settled s0) = log s0 @ [OuterReject err, ClearTimeout 0]"
      using st(5,6,7,8,9) pr e by (simp add: doCheck_rejected_def log_wait_cleanUp)
    with st(2,3,6) pr show ?thesis by simp
  qed
  from c w show ?thesis by blast
qed

theorem invalid_port_fails_witness:
  "port_refused (port_of [] (Str ''hello'')) \<and>
   is_bool (get (arg_opts [] (Str ''hello'') (Str ''127.0.0.1'') (Bool False) (Num 500)
                   (Num 2000)) ''inUse'') \<and>
   deferred (check inspect_ex [] (Str ''hello'') Undefined) =
     Rejected (new_Error (''invalid port: '' @ inspect_ex (Str ''hello''))) \<and>
   client (check inspect_ex [] (Str ''hello'') Undefined) = None \<and>
   w_deferred (step inspect_ex Settled
      (waitForStatus inspect_ex [] (Str ''hello'') (Str ''127.0.0.1'') (Bool False) (Num 500)
         (Num 2000))) = Rejected (new_Error (''invalid port: '' @ inspect_ex (Str ''hello''))) \<and>
   log (step inspect_ex Settled
      (waitForStatus inspect_ex [] (Str ''hello'') (Str ''127.0.0.1'') (Bool False) (Num 500)
         (Num 2000))) =
     [SetTimeout 0 TimeoutFunc (Num 2000), CallCheck (Str ''hello'') (Str ''127.0.0.1''),
      OuterReject (new_Error (''invalid port: '' @ inspect_ex (Str ''hello''))), ClearTimeout 0] \<and>
   port_refused (port_of [] (Num (- 1))) \<and>
   client (check inspect_ex [] (Num (- 1)) (Str ''127.0.0.1'')) = None \<and>
   trace (check inspect_ex [] (Num (- 1)) (Str ''127.0.0.1'')) =
     [Reject (new_Error (''invalid port: '' @ inspect_ex (Num (- 1))))] \<and>
   port_refused (port_of [] (Num 65536)) \<and>
   client (check inspect_ex [] (Num 65536) (Str ''127.0.0.1'')) = None"
proof -
  have p: "\<And>h. port_refused (port_of h (Str ''hello''))"
    "\<And>h. port_refused (port_of h (Num (- 1)))" "\<And>h. port_refused (port_of h (Num 65536))"
    by (simp_all add: port_of_def is_int_def)
  have b: "is_bool (get (arg_opts [] (Str ''hello'') (Str ''127.0.0.1'') (Bool False) (Num 500)
                   (Num 2000)) ''inUse'')"
    by (simp add: arg_opts_def get_makeOptionsObj)
  have g: "\<And>k. get (with_defaults (arg_opts [] (Str ''hello'') (Str ''127.0.0.1'') (Bool False)
                     (Num 500) (Num 2000))) k =
            get (makeOptionsObj (Str ''hello'') (Str ''127.0.0.1'') (Bool False) (Num 500)
                     (Num 2000)) k"
    by (simp add: arg_opts_def get_with_defaults get_makeOptionsObj)
  show ?thesis
    using p [of "[]"] b
      invalid_port_fails [OF refl refl refl refl, where inspect = inspect_ex and h = "[]"
        and port = "Str ''hello''" and host = "Str ''127.0.0.1''" and inUse = "Bool False"
        and retryTimeMs = "Num 500" and timeOutMs = "Num 2000" and ?h1.0 = "[]"
        and ?port1.0 = "Str ''hello''" and ?host1.0 = Undefined]
      invalid_port_fails [OF refl refl refl refl, where inspect = inspect_ex and h = "[]"
        and port = "Str ''hello''" and host = "Str ''127.0.0.1''" and inUse = "Bool False"
        and retryTimeMs = "Num 500" and timeOutMs = "Num 2000" and ?h1.0 = "[]"
        and ?port1.0 = "Num (- 1)" and ?host1.0 = "Str ''127.0.0.1''"]
      invalid_port_fails [OF refl refl refl refl, where inspect = inspect_ex and h = "[]"
        and port = "Str ''hello''" and host = "Str ''127.0.0.1''" and inUse = "Bool False"
        and retryTimeMs = "Num 500" and timeOutMs = "Num 2000" and ?h1.0 = "[]"
        and ?port1.0 = "Num 65536" and ?host1.0 = "Str ''127.0.0.1''"]
    by (simp add: p g get_makeOptionsObj port_of_def)
qed

text \<open>
  C5 as the spec states it fails for \<^verbatim>\<open>waitForStatus\<close>: with the port \<^verbatim>\<open>'hello'\<close>
  the deadline timer is armed before the port is looked at, and the call returns with the
  timer armed and the promise pending.
\<close>

theorem invalid_port_timer_counterexample:
  "log (waitForStatus inspect_ex [] (Str ''hello'') (Str ''127.0.0.1'') (Bool False) (Num 500)
          (Num 2000)) =
     [SetTimeout 0 TimeoutFunc (Num 2000), CallCheck (Str ''hello'') (Str ''127.0.0.1'')] \<and>
   timers (waitForStatus inspect_ex [] (Str ''hello'') (Str ''127.0.0.1'') (Bool False)
             (Num 500) (Num 2000)) = [Timer 0 TimeoutFunc (Num 2000)] \<and>
   w_deferred (waitForStatus inspect_ex [] (Str ''hello'') (Str ''127.0.0.1'') (Bool False)
                 (Num 500) (Num 2000)) = Pending \<and>
   \<not> is_port (Str ''hello'') \<and> port_refused (Str ''hello'')"
  by (simp add: waitForStatus_args get_with_defaults get_makeOptionsObj)

section \<open>C6: the teardown of the socket\<close>

text \<open>
  C6, as amended. A call of \<^verbatim>\<open>check\<close> with a valid port creates a socket, registers
  the two listeners and asks it to connect. Whatever the first event \<open>e\<close> of the socket
  is (connect, connection refused, any other error), its callback first settles the promise
  and then, in the same callback, performs the whole teardown: both kinds of listeners
  removed, the socket ended, destroyed and unreferenced. So the teardown is on every
  resolution path, it follows the call of \<^verbatim>\<open>resolve\<close> or \<^verbatim>\<open>reject\<close>, and whenever the
  promise is found settled, after any events \<open>es\<close>, the socket has been torn down.
\<close>

theorem check_teardown:
  assumes "is_port (port_of h port)"
  shows "trace (check inspect h port host) =
           [NewSocket, Once ''connect'', Once ''error'',
            Connect (port_of h port) (host_of h port host)] \<and>
         trace (emit e (check inspect h port host)) =
           trace (check inspect h port host) @ [settle_action e] @ teardown \<and>
         client (emit e (check inspect h port host)) =
           Some (torn_down (port_of h port) (host_of h port host)) \<and>
         deferred (emit e (check inspect h port host)) \<noteq> Pending \<and>
         (deferred (emits es (check inspect h port host)) \<noteq> Pending \<longrightarrow>
            client (emits es (check inspect h port host)) =
              Some (torn_down (port_of h port) (host_of h port host)))"
proof -
  let ?c = "check inspect h port host"
  have one: "trace ?c = [NewSocket, Once ''connect'', Once ''error'',
                         Connect (port_of h port) (host_of h port host)] \<and>
         trace (emit e ?c) = trace ?c @ [settle_action e] @ teardown \<and>
         client (emit e ?c) = Some (torn_down (port_of h port) (host_of h port host)) \<and>
         deferred (emit e ?c) \<noteq> Pending" for e
  proof -
    have "trace ?c = [NewSocket, Once ''connect'', Once ''error'',
                      Connect (port_of h port) (host_of h port host)]"
      by (simp add: check_valid [OF assms])
    moreover have "trace (emit e ?c) =
        [NewSocket, Once ''connect'', Once ''error'',
         Connect (port_of h port) (host_of h port host)] @ [settle_action e] @ teardown \<and>
        client (emit e ?c) = Some (torn_down (port_of h port) (host_of h port host)) \<and>
        deferred (emit e ?c) \<noteq> Pending"
      by (cases e) (simp_all add: emit_check_valid [OF assms] torn_down_def)
    ultimately show ?thesis by simp
  qed
  have "client (emits es ?c) = Some (torn_down (port_of h port) (host_of h port host))"
    if "deferred (emits es ?c) \<noteq> Pending"
  proof (cases es)
    case Nil
    with that show ?thesis by (simp add: check_valid [OF assms])
  next
    case (Cons e' es')
    have "emits es' (emit e' ?c) = emit e' ?c"
      by (rule emits_no_listener [where k = "the (client (emit e' ?c))"])
         (simp_all add: emit_check_valid [OF assms])
    with Cons one [of e'] show ?thesis by simp
  qed
  with one [of e] show ?thesis by blast
qed

theorem check_teardown_witness:
  "is_port (port_of [] (Num 44204)) \<and>
   trace (emit (EvError ex_unreachable) (check inspect_ex [] (Num 44204) (Str ''10.0.0.1''))) =
     [NewSocket, Once ''connect'', Once ''error'', Connect (Num 44204) (Str ''10.0.0.1''),
      Reject ex_unreachable,
      RemoveAllListeners ''connect'', RemoveAllListeners ''error'', End, Destroy, Unref] \<and>
   client (emit (EvError ex_unreachable) (check inspect_ex [] (Num 44204) (Str ''10.0.0.1''))) =
     Some (torn_down (Num 44204) (Str ''10.0.0.1''))"
proof -
  have p: "is_port (port_of [] (Num 44204))"
    by (simp add: port_of_def)
  show ?thesis
    using p check_teardown [OF p, of inspect_ex "Str ''10.0.0.1''" "EvError ex_unreachable" "[]"]
    by (simp add: port_of_def host_of_def settle_action_def teardown_def ex_unreachable_def)
qed

text \<open>
  C6 as the spec states it fails on the order: on the successful-connection path the trace
  has \<^verbatim>\<open>resolve(true)\<close> at position 4 and the teardown after it, at positions 5 to 9.
\<close>

theorem check_resolves_before_teardown_counterexample:
  "trace (emit EvConnect (check inspect_ex [] (Num 44204) (Str ''127.0.0.1''))) =
     [NewSocket, Once ''connect'', Once ''error'', Connect (Num 44204) (Str ''127.0.0.1''),
      Resolve True,
      RemoveAllListeners ''connect'', RemoveAllListeners ''error'', End, Destroy, Unref] \<and>
   trace (emit EvConnect (check inspect_ex [] (Num 44204) (Str ''127.0.0.1''))) ! 4 =
     Resolve True \<and>
   trace (emit EvConnect (check inspect_ex [] (Num 44204) (Str ''127.0.0.1''))) ! 8 = Destroy"
  by (simp add: emit_check_valid [OF ex_port] port_of_def host_of_def settle_action_def
      teardown_def)

section \<open>C7: validation of \<open>inUse\<close> and the two defaults\<close>

text \<open>
  C7. Let \<open>ob0\<close> be the options as \<^verbatim>\<open>waitForStatus\<close> receives them. When \<open>inUse\<close>
  is not a boolean, the call returns with the promise rejected with the error whose
  message is \<^verbatim>\<open>inUse must be a boolean\<close>; that rejection is its only action: no timer
  was started and no probe issued. When \<open>inUse\<close> is a boolean, afterwards
  \<open>retryTimeMs\<close> is the caller's value if that is a positive integer and 250 otherwise
  (absent included), \<open>timeOutMs\<close> is the caller's value if that is a positive integer and
  2000 otherwise, each decided by its own value alone; \<open>port\<close>, \<open>host\<close> and \<open>inUse\<close>
  are as the caller gave them, and the deadline timer is armed with that \<open>timeOutMs\<close>.
\<close>

theorem waitForStatus_validation_defaults:
  assumes "ob0 = arg_opts h port host inUse retryTimeMs timeOutMs"
    and "s0 = waitForStatus inspect h port host inUse retryTimeMs timeOutMs"
  shows "(\<not> is_bool (get ob0 ''inUse'') \<longrightarrow>
            w_deferred s0 = Rejected (new_Error ''inUse must be a boolean'') \<and>
            message (new_Error ''inUse must be a boolean'') = ''inUse must be a boolean'' \<and>
            log s0 = [OuterReject (new_Error ''inUse must be a boolean'')] \<and>
            timers s0 = [] \<and> next_id s0 = 0 \<and> probe s0 = None) \<and>
         (is_bool (get ob0 ''inUse'') \<longrightarrow>
            opt s0 ''retryTimeMs'' =
              (if is_positiveInt (get ob0 ''retryTimeMs'') then get ob0 ''retryTimeMs''
               else Num 250) \<and>
            opt s0 ''timeOutMs'' =
              (if is_positiveInt (get ob0 ''timeOutMs'') then get ob0 ''timeOutMs''
               else Num 2000) \<and>
            opt s0 ''port'' = get ob0 ''port'' \<and>
            opt s0 ''host'' = get ob0 ''host'' \<and>
            opt s0 ''inUse'' = get ob0 ''inUse'' \<and>
            timers s0 = [Timer 0 TimeoutFunc (opt s0 ''timeOutMs'')])"
proof -
  have n: "w_deferred s0 = Rejected (new_Error ''inUse must be a boolean'') \<and>
            message (new_Error ''inUse must be a boolean'') = ''inUse must be a boolean'' \<and>
            log s0 = [OuterReject (new_Error ''inUse must be a boolean'')] \<and>
            timers s0 = [] \<and> next_id s0 = 0 \<and> probe s0 = None"
    if "\<not> is_bool (get ob0 ''inUse'')"
    using that assms by (simp add: waitForStatus_not_bool new_Error_def)
  have b: "opt s0 ''retryTimeMs'' =
              (if is_positiveInt (get ob0 ''retryTimeMs'') then get ob0 ''retryTimeMs''
               else Num 250) \<and>
            opt s0 ''timeOutMs'' =
              (if is_positiveInt (get ob0 ''timeOutMs'') then get ob0 ''timeOutMs''
               else Num 2000) \<and>
            opt s0 ''port'' = get ob0 ''port'' \<and>
            opt s0 ''host'' = get ob0 ''host'' \<and>
            opt s0 ''inUse'' = get ob0 ''inUse'' \<and>
            timers s0 = [Timer 0 TimeoutFunc (opt s0 ''timeOutMs'')]"
    if "is_bool (get ob0 ''inUse'')"
  proof -
    from that assms(1)
    have "is_bool (get (arg_opts h port host inUse retryTimeMs timeOutMs) ''inUse'')" by simp
    note st = waitForStatus_start [OF this refl assms(2)]
    show ?thesis
      using assms(1)
      by (simp add: st(1,3) get_with_defaults TIMEOUT_def RETRY_TIME_def)
  qed
  from n b show ?thesis by blast
qed

theorem waitForStatus_validation_defaults_witness:
  "\<not> is_bool (get (arg_opts [ex_remote] (Obj 0) Undefined Undefined Undefined Undefined)
                 ''inUse'') \<and>
   w_deferred (waitForStatus inspect_ex [ex_remote] (Obj 0) Undefined Undefined Undefined
                 Undefined) = Rejected (new_Error ''inUse must be a boolean'') \<and>
   timers (waitForStatus inspect_ex [ex_remote] (Obj 0) Undefined Undefined Undefined
             Undefined) = [] \<and>
   is_bool (get (arg_opts [ex_loose] (Obj 0) Undefined Undefined Undefined Undefined)
              ''inUse'') \<and>
   opt (waitForStatus inspect_ex [ex_loose] (Obj 0) Undefined Undefined Undefined Undefined)
     ''retryTimeMs'' = Num 250 \<and>
   opt (waitForStatus inspect_ex [ex_loose] (Obj 0) Undefined Undefined Undefined Undefined)
     ''timeOutMs'' = Num 2000 \<and>
   is_bool (get (arg_opts [] (Num 44204) (Str ''127.0.0.1'') (Bool True) (Num 500) Null)
              ''inUse'') \<and>
   opt (waitForStatus inspect_ex [] (Num 44204) (Str ''127.0.0.1'') (Bool True) (Num 500) Null)
     ''retryTimeMs'' = Num 500 \<and>
   opt (waitForStatus inspect_ex [] (Num 44204) (Str ''127.0.0.1'') (Bool True) (Num 500) Null)
     ''timeOutMs'' = Num 2000"
  using
    waitForStatus_validation_defaults [OF refl refl, where inspect = inspect_ex
      and h = "[ex_remote]" and port = "Obj 0" and host = Undefined and inUse = Undefined
      and retryTimeMs = Undefined and timeOutMs = Undefined]
    waitForStatus_validation_defaults [OF refl refl, where inspect = inspect_ex
      and h = "[ex_loose]" and port = "Obj 0" and host = Undefined and inUse = Undefined
      and retryTimeMs = Undefined and timeOutMs = Undefined]
    waitForStatus_validation_defaults [OF refl refl, where inspect = inspect_ex
      and h = "[]" and port = "Num 44204" and host = "Str ''127.0.0.1''" and inUse = "Bool True"
      and retryTimeMs = "Num 500" and timeOutMs = Null]
  by (simp add: arg_opts_def ex_remote_get ex_loose_get get_makeOptionsObj not_is_int_half)

section \<open>C8: \<^verbatim>\<open>waitUntilFree\<close> and \<^verbatim>\<open>waitUntilUsed\<close>\<close>

text \<open>
  C8, as amended. Called with an options object, \<^verbatim>\<open>waitUntilFree\<close> is
  \<^verbatim>\<open>waitForStatus\<close> on a copy of the object in which \<open>host\<close> is set to
  \<^verbatim>\<open>'127.0.0.1'\<close> and \<open>inUse\<close> to \<open>false\<close>, and \<^verbatim>\<open>waitUntilUsed\<close> is
  \<^verbatim>\<open>waitForStatus\<close> on such a copy with \<open>inUse\<close> \<open>true\<close>: every other property is
  passed through unchanged, the caller's own object is left as it was, and the first probe
  goes to \<^verbatim>\<open>'127.0.0.1'\<close>. Called with positional arguments, they are
  \<^verbatim>\<open>waitForStatus\<close> with host \<^verbatim>\<open>'127.0.0.1'\<close> and \<open>inUse\<close> \<open>false\<close> and \<open>true\<close>.
\<close>

theorem localhost_wrappers:
  assumes "a < length h"
  shows "waitUntilFree inspect h (Obj a) retryTimeMs timeOutMs =
           waitForStatus inspect
             (h @ [(h ! a)(''host'' \<mapsto> LOCALHOST, ''inUse'' \<mapsto> Bool False)])
             (Obj (length h)) Undefined Undefined Undefined Undefined \<and>
         waitUntilUsed inspect h (Obj a) retryTimeMs timeOutMs =
           waitForStatus inspect
             (h @ [(h ! a)(''host'' \<mapsto> LOCALHOST, ''inUse'' \<mapsto> Bool True)])
             (Obj (length h)) Undefined Undefined Undefined Undefined \<and>
         heap (waitUntilFree inspect h (Obj a) retryTimeMs timeOutMs) ! a = h ! a \<and>
         heap (waitUntilUsed inspect h (Obj a) retryTimeMs timeOutMs) ! a = h ! a \<and>
         log (waitUntilFree inspect h (Obj a) retryTimeMs timeOutMs) =
           [SetTimeout 0 TimeoutFunc (get (with_defaults (h ! a)) ''timeOutMs''),
            CallCheck (get (h ! a) ''port'') LOCALHOST] \<and>
         log (waitUntilUsed inspect h (Obj a) retryTimeMs timeOutMs) =
           [SetTimeout 0 TimeoutFunc (get (with_defaults (h ! a)) ''timeOutMs''),
            CallCheck (get (h ! a) ''port'') LOCALHOST] \<and>
         (\<not> is_obj port \<longrightarrow>
            waitUntilFree inspect h port retryTimeMs timeOutMs =
              waitForStatus inspect h port LOCALHOST (Bool False) retryTimeMs timeOutMs \<and>
            waitUntilUsed inspect h port retryTimeMs timeOutMs =
              waitForStatus inspect h port LOCALHOST (Bool True) retryTimeMs timeOutMs)"
proof -
  have d: "\<And>v w. get (with_defaults ((h ! a)(''host'' \<mapsto> w, ''inUse'' \<mapsto> v))) ''timeOutMs'' =
                get (with_defaults (h ! a)) ''timeOutMs''"
    by (simp add: get_with_defaults)
  have args: "\<not> is_obj port \<longrightarrow>
            waitUntilFree inspect h port retryTimeMs timeOutMs =
              waitForStatus inspect h port LOCALHOST (Bool False) retryTimeMs timeOutMs \<and>
            waitUntilUsed inspect h port retryTimeMs timeOutMs =
              waitForStatus inspect h port LOCALHOST (Bool True) retryTimeMs timeOutMs"
    by (simp add: waitUntilFree_args waitUntilUsed_args)
  have heaps: "heap (waitUntilFree inspect h (Obj a) retryTimeMs timeOutMs) ! a = h ! a \<and>
         heap (waitUntilUsed inspect h (Obj a) retryTimeMs timeOutMs) ! a = h ! a"
    using assms
    by (simp add: waitUntilFree_obj waitUntilUsed_obj waitForStatus_obj nth_append)
  have logs: "log (waitUntilFree inspect h (Obj a) retryTimeMs timeOutMs) =
           [SetTimeout 0 TimeoutFunc (get (with_defaults (h ! a)) ''timeOutMs''),
            CallCheck (get (h ! a) ''port'') LOCALHOST] \<and>
         log (waitUntilUsed inspect h (Obj a) retryTimeMs timeOutMs) =
           [SetTimeout 0 TimeoutFunc (get (with_defaults (h ! a)) ''timeOutMs''),
            CallCheck (get (h ! a) ''port'') LOCALHOST]"
    using assms
    by (simp add: waitUntilFree_obj waitUntilUsed_obj log_waitForStatus_obj d)
  from args heaps logs assms show ?thesis
    by (simp add: waitUntilFree_obj waitUntilUsed_obj)
qed

theorem localhost_wrappers_witness:
  "(0::nat) < length [ex_remote] \<and> \<not> is_obj (Num 44204) \<and>
   heap (waitUntilFree inspect_ex [ex_remote] (Obj 0) Undefined Undefined) ! 0 = ex_remote \<and>
   log (waitUntilFree inspect_ex [ex_remote] (Obj 0) Undefined Undefined) =
     [SetTimeout 0 TimeoutFunc (Num 2000), CallCheck (Num 44204) (Str ''127.0.0.1'')] \<and>
   waitUntilUsed inspect_ex [ex_remote] (Num 44204) (Num 500) (Num 4000) =
     waitForStatus inspect_ex [ex_remote] (Num 44204) (Str ''127.0.0.1'') (Bool True)
       (Num 500) (Num 4000)"
proof -
  have l: "(0::nat) < length [ex_remote]" by simp
  show ?thesis
    using localhost_wrappers [OF l, of inspect_ex Undefined Undefined "Num 44204"]
      localhost_wrappers [OF l, of inspect_ex "Num 500" "Num 4000" "Num 44204"]
    by (simp add: waitUntilFree_obj waitUntilUsed_obj waitUntilFree_args waitUntilUsed_args
        log_waitForStatus_obj waitForStatus_obj nth_append
        ex_remote_get get_with_defaults TIMEOUT_def LOCALHOST_def)
qed

text \<open>
  C8 as the spec states it fails: \<^verbatim>\<open>waitUntilFree\<close> on an object whose \<open>host\<close> is
  \<^verbatim>\<open>'example.com'\<close> probes \<^verbatim>\<open>'127.0.0.1'\<close>, while \<^verbatim>\<open>waitForStatus\<close> on that object
  with \<open>inUse\<close> set to \<open>false\<close> probes \<^verbatim>\<open>'example.com'\<close>.
\<close>

theorem waitUntilFree_host_counterexample:
  "log (waitUntilFree inspect_ex [ex_remote] (Obj 0) Undefined Undefined) =
     [SetTimeout 0 TimeoutFunc (Num 2000), CallCheck (Num 44204) (Str ''127.0.0.1'')] \<and>
   log (waitForStatus inspect_ex [ex_remote(''inUse'' \<mapsto> Bool False)] (Obj 0)
          Undefined Undefined Undefined Undefined) =
     [SetTimeout 0 TimeoutFunc (Num 2000), CallCheck (Num 44204) (Str ''example.com'')] \<and>
   target (waitUntilFree inspect_ex [ex_remote] (Obj 0) Undefined Undefined) =
     Some (Num 44204, Str ''127.0.0.1'') \<and>
   target (waitForStatus inspect_ex [ex_remote(''inUse'' \<mapsto> Bool False)] (Obj 0)
          Undefined Undefined Undefined Undefined) =
     Some (Num 44204, Str ''example.com'')"
  by (simp add: waitUntilFree_obj log_waitForStatus_obj target_waitForStatus_obj
      ex_remote_get get_with_defaults TIMEOUT_def LOCALHOST_def)

section \<open>C9: the caller's options object is written to\<close>

text \<open>
  C9, as amended. When \<^verbatim>\<open>waitForStatus\<close> is given an options object whose \<open>inUse\<close>
  is a boolean, it works on that very object and writes into it: afterwards the object's
  \<open>retryTimeMs\<close> is 250 unless it was a positive integer and its \<open>timeOutMs\<close> is 2000
  unless it was a positive integer; nothing else in the heap changes.
  \<^verbatim>\<open>waitUntilUsedOnHost\<close> given an options object sets that object's \<open>inUse\<close> to
  \<open>true\<close> (and, through \<^verbatim>\<open>waitForStatus\<close>, writes the two defaults). The object
  keeps what was written: a later \<^verbatim>\<open>waitForStatus\<close> on the same object finds
  \<open>inUse\<close> a boolean, whatever it was before the first call, and changes nothing more.
\<close>

theorem options_object_mutated:
  assumes "a < length h"
    and "s1 = waitUntilUsedOnHost inspect h (Obj a) host retryTimeMs timeOutMs"
    and "s2 = waitForStatus inspect (heap s1) (Obj a) host2 inUse2 retryTimeMs2 timeOutMs2"
  shows "(is_bool (get (h ! a) ''inUse'') \<longrightarrow>
            opts (waitForStatus inspect h (Obj a) host inUse retryTimeMs timeOutMs) = a \<and>
            heap (waitForStatus inspect h (Obj a) host inUse retryTimeMs timeOutMs) =
              h[a := with_defaults (h ! a)] \<and>
            get (with_defaults (h ! a)) ''retryTimeMs'' =
              (if is_positiveInt (get (h ! a) ''retryTimeMs'') then get (h ! a) ''retryTimeMs''
               else Num 250) \<and>
            get (with_defaults (h ! a)) ''timeOutMs'' =
              (if is_positiveInt (get (h ! a) ''timeOutMs'') then get (h ! a) ''timeOutMs''
               else Num 2000)) \<and>
         opts s1 = a \<and>
         heap s1 = h[a := with_defaults ((h ! a)(''inUse'' \<mapsto> Bool True))] \<and>
         get (heap s1 ! a) ''inUse'' = Bool True \<and>
         w_deferred s2 = Pending \<and>
         heap s2 = heap s1"
proof -
  let ?ob = "(h ! a)(''inUse'' \<mapsto> Bool True)"
  have w: "opts (waitForStatus inspect h (Obj a) host inUse retryTimeMs timeOutMs) = a \<and>
            heap (waitForStatus inspect h (Obj a) host inUse retryTimeMs timeOutMs) =
              h[a := with_defaults (h ! a)] \<and>
            get (with_defaults (h ! a)) ''retryTimeMs'' =
              (if is_positiveInt (get (h ! a) ''retryTimeMs'') then get (h ! a) ''retryTimeMs''
               else Num 250) \<and>
            get (with_defaults (h ! a)) ''timeOutMs'' =
              (if is_positiveInt (get (h ! a) ''timeOutMs'') then get (h ! a) ''timeOutMs''
               else Num 2000)"
    if "is_bool (get (h ! a) ''inUse'')"
    using assms(1) that
    by (simp add: heap_waitForStatus_obj get_with_defaults RETRY_TIME_def TIMEOUT_def)
  have s1: "opts s1 = a \<and> heap s1 = h[a := with_defaults ?ob]"
    using assms(1,2) by (simp add: waitUntilUsedOnHost_obj heap_waitForStatus_obj)
  then have u: "get (heap s1 ! a) ''inUse'' = Bool True"
    using assms(1) by (simp add: get_with_defaults)
  have l: "a < length (heap s1)" using s1 assms(1) by simp
  have b: "is_bool (get (heap s1 ! a) ''inUse'')" using u by simp
  have "heap s2 = (heap s1)[a := with_defaults (heap s1 ! a)]"
    using assms(3) by (simp add: heap_waitForStatus_obj [OF l b])
  also have "\<dots> = heap s1"
    using s1 assms(1) by (simp add: with_defaults_idem)
  finally have "heap s2 = heap s1" .
  moreover have "w_deferred s2 = Pending"
    using assms(3) by (simp add: heap_waitForStatus_obj [OF l b])
  ultimately show ?thesis
    using w s1 u by blast
qed

theorem options_object_mutated_witness:
  "(0::nat) < length [ex_loose] \<and> is_bool (get ([ex_loose] ! 0) ''inUse'') \<and>
   get (heap (waitForStatus inspect_ex [ex_loose] (Obj 0) Undefined Undefined Undefined
                Undefined) ! 0) ''retryTimeMs'' = Num 250 \<and>
   get (heap (waitForStatus inspect_ex [ex_loose] (Obj 0) Undefined Undefined Undefined
                Undefined) ! 0) ''timeOutMs'' = Num 2000 \<and>
   get ([ex_remote] ! 0) ''inUse'' = Undefined \<and>
   get (heap (waitUntilUsedOnHost inspect_ex [ex_remote] (Obj 0) Undefined Undefined
                Undefined) ! 0) ''inUse'' = Bool True \<and>
   w_deferred (waitForStatus inspect_ex
                 (heap (waitUntilUsedOnHost inspect_ex [ex_remote] (Obj 0) Undefined Undefined
                          Undefined))
                 (Obj 0) Undefined Undefined Undefined Undefined) = Pending"
proof -
  have l: "(0::nat) < length [ex_loose]" "(0::nat) < length [ex_remote]" by simp_all
  show ?thesis
    using
      options_object_mutated [OF l(1) refl refl, where inspect = inspect_ex
        and host = Undefined and inUse = Undefined and retryTimeMs = Undefined
        and timeOutMs = Undefined and ?host2.0 = Undefined and ?inUse2.0 = Undefined
        and ?retryTimeMs2.0 = Undefined and ?timeOutMs2.0 = Undefined]
      options_object_mutated [OF l(2) refl refl, where inspect = inspect_ex
        and host = Undefined and inUse = Undefined and retryTimeMs = Undefined
        and timeOutMs = Undefined and ?host2.0 = Undefined and ?inUse2.0 = Undefined
        and ?retryTimeMs2.0 = Undefined and ?timeOutMs2.0 = Undefined]
    by (simp add: heap_waitForStatus_obj waitUntilUsedOnHost_obj ex_loose_get ex_remote_get
        not_is_int_half get_with_defaults RETRY_TIME_def TIMEOUT_def)
qed

text \<open>
  C9 as stated fails when \<open>inUse\<close> is not a boolean: \<^verbatim>\<open>waitForStatus\<close> returns
  before it writes the defaults, and the object's missing \<open>retryTimeMs\<close> and
  \<open>timeOutMs\<close> stay missing.
\<close>

theorem options_not_mutated_counterexample:
  "heap (waitForStatus inspect_ex [ex_remote] (Obj 0) Undefined Undefined Undefined Undefined)
     = [ex_remote] \<and>
   get ex_remote ''retryTimeMs'' = Undefined \<and> \<not> is_positiveInt Undefined \<and>
   get (heap (waitForStatus inspect_ex [ex_remote] (Obj 0) Undefined Undefined Undefined
                Undefined) ! 0) ''retryTimeMs'' = Undefined \<and>
   get (heap (waitForStatus inspect_ex [ex_remote] (Obj 0) Undefined Undefined Undefined
                Undefined) ! 0) ''timeOutMs'' = Undefined"
  by (simp add: waitForStatus_not_bool arg_opts_def ex_remote_get)

section \<open>C10: \<^verbatim>\<open>waitUntilFreeOnHost\<close> and \<^verbatim>\<open>waitUntilUsedOnHost\<close>\<close>

text \<open>
  C10. The module exports \<^verbatim>\<open>waitUntilFreeOnHost\<close> and \<^verbatim>\<open>waitUntilUsedOnHost\<close>.
  Called with an options object, \<^verbatim>\<open>waitUntilFreeOnHost\<close> is \<^verbatim>\<open>waitForStatus\<close> on a
  copy of the object with \<open>inUse\<close> set to \<open>false\<close>, and \<^verbatim>\<open>waitUntilUsedOnHost\<close> is
  \<^verbatim>\<open>waitForStatus\<close> on the object itself with \<open>inUse\<close> set to \<open>true\<close>; called with
  positional arguments, they are \<^verbatim>\<open>waitForStatus\<close> with the same arguments and
  \<open>inUse\<close> \<open>false\<close> and \<open>true\<close>. Both pass the caller's \<open>host\<close> to \<^verbatim>\<open>check\<close>, and
  with a valid port the socket is asked to connect to that host; \<^verbatim>\<open>waitUntilFree\<close> and
  \<^verbatim>\<open>waitUntilUsed\<close> pass \<^verbatim>\<open>'127.0.0.1'\<close> whatever the caller's \<open>host\<close> is, so the two
  \<^verbatim>\<open>OnHost\<close> functions are the only wrappers that honour it.
\<close>

theorem onHost_wrappers:
  assumes "a < length h"
  shows "waitUntilFreeOnHost inspect h (Obj a) host retryTimeMs timeOutMs =
           waitForStatus inspect (h @ [(h ! a)(''inUse'' \<mapsto> Bool False)]) (Obj (length h))
             Undefined Undefined Undefined Undefined \<and>
         waitUntilUsedOnHost inspect h (Obj a) host retryTimeMs timeOutMs =
           waitForStatus inspect (h[a := (h ! a)(''inUse'' \<mapsto> Bool True)]) (Obj a)
             Undefined Undefined Undefined Undefined \<and>
         (\<not> is_obj port \<longrightarrow>
            waitUntilFreeOnHost inspect h port host retryTimeMs timeOutMs =
              waitForStatus inspect h port host (Bool False) retryTimeMs timeOutMs \<and>
            waitUntilUsedOnHost inspect h port host retryTimeMs timeOutMs =
              waitForStatus inspect h port host (Bool True) retryTimeMs timeOutMs) \<and>
         log (waitUntilFreeOnHost inspect h (Obj a) host retryTimeMs timeOutMs) =
           [SetTimeout 0 TimeoutFunc (get (with_defaults (h ! a)) ''timeOutMs''),
            CallCheck (get (h ! a) ''port'') (get (h ! a) ''host'')] \<and>
         log (waitUntilUsedOnHost inspect h (Obj a) host retryTimeMs timeOutMs) =
           [SetTimeout 0 TimeoutFunc (get (with_defaults (h ! a)) ''timeOutMs''),
            CallCheck (get (h ! a) ''port'') (get (h ! a) ''host'')] \<and>
         log (waitUntilFree inspect h (Obj a) retryTimeMs timeOutMs) =
           [SetTimeout 0 TimeoutFunc (get (with_defaults (h ! a)) ''timeOutMs''),
            CallCheck (get (h ! a) ''port'') LOCALHOST] \<and>
         log (waitUntilUsed inspect h (Obj a) retryTimeMs timeOutMs) =
           [SetTimeout 0 TimeoutFunc (get (with_defaults (h ! a)) ''timeOutMs''),
            CallCheck (get (h ! a) ''port'') LOCALHOST] \<and>
         (is_port (get (h ! a) ''port'') \<longrightarrow>
            target (waitUntilFreeOnHost inspect h (Obj a) host retryTimeMs timeOutMs) =
              Some (get (h ! a) ''port'', get (h ! a) ''host'') \<and>
            target (waitUntilUsedOnHost inspect h (Obj a) host retryTimeMs timeOutMs) =
              Some (get (h ! a) ''port'', get (h ! a) ''host'') \<and>
            target (waitUntilFree inspect h (Obj a) retryTimeMs timeOutMs) =
              Some (get (h ! a) ''port'', LOCALHOST) \<and>
            target (waitUntilUsed inspect h (Obj a) retryTimeMs timeOutMs) =
              Some (get (h ! a) ''port'', LOCALHOST)) \<and>
         ''waitUntilFreeOnHost'' \<in> set exports \<and> ''waitUntilUsedOnHost'' \<in> set exports"
proof -
  have objs: "waitUntilFreeOnHost inspect h (Obj a) host retryTimeMs timeOutMs =
           waitForStatus inspect (h @ [(h ! a)(''inUse'' \<mapsto> Bool False)]) (Obj (length h))
             Undefined Undefined Undefined Undefined \<and>
         waitUntilUsedOnHost inspect h (Obj a) host retryTimeMs timeOutMs =
           waitForStatus inspect (h[a := (h ! a)(''inUse'' \<mapsto> Bool True)]) (Obj a)
             Undefined Undefined Undefined Undefined"
    using assms by (simp add: waitUntilFreeOnHost_obj waitUntilUsedOnHost_obj)
  have args: "\<not> is_obj port \<longrightarrow>
            waitUntilFreeOnHost inspect h port host retryTimeMs timeOutMs =
              waitForStatus inspect h port host (Bool False) retryTimeMs timeOutMs \<and>
            waitUntilUsedOnHost inspect h port host retryTimeMs timeOutMs =
              waitForStatus inspect h port host (Bool True) retryTimeMs timeOutMs"
    by (simp add: waitUntilFreeOnHost_args waitUntilUsedOnHost_args)
  have d: "\<And>v. get (with_defaults ((h ! a)(''inUse'' \<mapsto> v))) ''timeOutMs'' =
                get (with_defaults (h ! a)) ''timeOutMs''"
    "\<And>v w. get (with_defaults ((h ! a)(''host'' \<mapsto> w, ''inUse'' \<mapsto> v))) ''timeOutMs'' =
                get (with_defaults (h ! a)) ''timeOutMs''"
    by (simp_all add: get_with_defaults)
  have logs: "log (waitUntilFreeOnHost inspect h (Obj a) host retryTimeMs timeOutMs) =
           [SetTimeout 0 TimeoutFunc (get (with_defaults (h ! a)) ''timeOutMs''),
            CallCheck (get (h ! a) ''port'') (get (h ! a) ''host'')] \<and>
         log (waitUntilUsedOnHost inspect h (Obj a) host retryTimeMs timeOutMs) =
           [SetTimeout 0 TimeoutFunc (get (with_defaults (h ! a)) ''timeOutMs''),
            CallCheck (get (h ! a) ''port'') (get (h ! a) ''host'')] \<and>
         log (waitUntilFree inspect h (Obj a) retryTimeMs timeOutMs) =
           [SetTimeout 0 TimeoutFunc (get (with_defaults (h ! a)) ''timeOutMs''),
            CallCheck (get (h ! a) ''port'') LOCALHOST] \<and>
         log (waitUntilUsed inspect h (Obj a) retryTimeMs timeOutMs) =
           [SetTimeout 0 TimeoutFunc (get (with_defaults (h ! a)) ''timeOutMs''),
            CallCheck (get (h ! a) ''port'') LOCALHOST]"
    using assms
    by (simp add: waitUntilFreeOnHost_obj waitUntilUsedOnHost_obj waitUntilFree_obj
        waitUntilUsed_obj log_waitForStatus_obj d)
  have targets: "target (waitUntilFreeOnHost inspect h (Obj a) host retryTimeMs timeOutMs) =
              Some (get (h ! a) ''port'', get (h ! a) ''host'') \<and>
            target (waitUntilUsedOnHost inspect h (Obj a) host retryTimeMs timeOutMs) =
              Some (get (h ! a) ''port'', get (h ! a) ''host'') \<and>
            target (waitUntilFree inspect h (Obj a) retryTimeMs timeOutMs) =
              Some (get (h ! a) ''port'', LOCALHOST) \<and>
            target (waitUntilUsed inspect h (Obj a) retryTimeMs timeOutMs) =
              Some (get (h ! a) ''port'', LOCALHOST)"
    if "is_port (get (h ! a) ''port'')"
    using assms that
    by (simp add: waitUntilFreeOnHost_obj waitUntilUsedOnHost_obj waitUntilFree_obj
        waitUntilUsed_obj target_waitForStatus_obj)
  have ex: "''waitUntilFreeOnHost'' \<in> set exports \<and> ''waitUntilUsedOnHost'' \<in> set exports"
    by (simp add: exports_def)
  from objs args logs targets ex show ?thesis by blast
qed

theorem onHost_wrappers_witness:
  "(0::nat) < length [ex_remote] \<and> \<not> is_obj (Num 44204) \<and>
   waitUntilFreeOnHost inspect_ex [ex_remote] (Num 44204) (Str ''example.com'')
       Undefined Undefined =
     waitForStatus inspect_ex [ex_remote] (Num 44204) (Str ''example.com'') (Bool False)
       Undefined Undefined \<and>
   log (waitUntilFreeOnHost inspect_ex [ex_remote] (Obj 0) Undefined Undefined Undefined) =
     [SetTimeout 0 TimeoutFunc (Num 2000), CallCheck (Num 44204) (Str ''example.com'')] \<and>
   log (waitUntilUsedOnHost inspect_ex [ex_remote] (Obj 0) Undefined Undefined Undefined) =
     [SetTimeout 0 TimeoutFunc (Num 2000), CallCheck (Num 44204) (Str ''example.com'')] \<and>
   target (waitUntilUsedOnHost inspect_ex [ex_remote] (Obj 0) Undefined Undefined Undefined) =
     Some (Num 44204, Str ''example.com'') \<and>
   target (waitUntilUsed inspect_ex [ex_remote] (Obj 0) Undefined Undefined) =
     Some (Num 44204, Str ''127.0.0.1'')"
proof -
  have l: "(0::nat) < length [ex_remote]" by simp
  show ?thesis
    using onHost_wrappers [OF l, of inspect_ex Undefined Undefined Undefined "Num 44204"]
      onHost_wrappers [OF l, of inspect_ex "Str ''example.com''" Undefined Undefined
        "Num 44204"]
    by (simp add: waitUntilFreeOnHost_obj waitUntilUsedOnHost_obj waitUntilFree_obj
        waitUntilUsed_obj waitUntilFreeOnHost_args waitUntilUsedOnHost_args
        log_waitForStatus_obj target_waitForStatus_obj
        ex_remote_get get_with_defaults TIMEOUT_def LOCALHOST_def)
qed

end
